theory Spec2Isabelle
  imports Main "HOL-Library.Char_ord"
begin

section \<open>Scope of the embedding\<close>

text \<open>
  The development embeds the BigQuery access-control code of the repository:
  \<^item> \<^verbatim>\<open>internal/tools/bigquery/bigquerycommon/table_name_parser.go\<close>, whose
    definitions carry the suffix \<open>_A\<close> where they differ from the second file;
  \<^item> the second parser file of package \<^verbatim>\<open>bigquerycommon\<close> (the variant with
    \<^verbatim>\<open>hasPrefix\<close>, \<^verbatim>\<open>hasPrefixFold\<close> and \<^verbatim>\<open>findAndParseSQLString\<close>), suffix \<open>_B\<close>;
  \<^item> \<^verbatim>\<open>ValidateQueryAgainstAllowedDatasets\<close> of \<^verbatim>\<open>util.go\<close>, which sits beside
    the first file and calls its \<^verbatim>\<open>TableParser\<close> and
    \<^verbatim>\<open>IsAnyTableExplicitlyReferenced\<close>.

  A Go string is read here as its sequence of code points (\<^verbatim>\<open>[]rune(sql)\<close>), one
  \<^typ>\<open>char\<close> per code point, and the code points are ASCII: then the byte offsets of
  \<^verbatim>\<open>len(sql)\<close> and \<^verbatim>\<open>strings.Index\<close> are the rune offsets, and
  \<^verbatim>\<open>unicode.IsLetter\<close>, \<^verbatim>\<open>unicode.IsNumber\<close>, \<^verbatim>\<open>unicode.IsSpace\<close>,
  \<^verbatim>\<open>strings.ToLower\<close> and \<^verbatim>\<open>strings.ToUpper\<close> are their ASCII tables. Text outside
  ASCII is outside the embedding.

  A Go \<^verbatim>\<open>map[string]struct{}\<close> that is only tested for membership is a
  \<^typ>\<open>string set\<close>. The table-ID map is also iterated; Go leaves the iteration order
  open, and the embedding keeps the keys in a duplicate-free list in order of insertion,
  which is one of the orders Go may produce.
\<close>

section \<open>Runes and strings\<close>

definition isLetter :: "char \<Rightarrow> bool" where
  "isLetter c = ((CHR ''A'' \<le> c \<and> c \<le> CHR ''Z'') \<or> (CHR ''a'' \<le> c \<and> c \<le> CHR ''z''))"

definition isNumber :: "char \<Rightarrow> bool" where
  "isNumber c = (CHR ''0'' \<le> c \<and> c \<le> CHR ''9'')"

definition isSpace :: "char \<Rightarrow> bool" where
  "isSpace c = (c \<in> set [CHR 0x09, CHR 0x0A, CHR 0x0B, CHR 0x0C, CHR 0x0D, CHR '' ''])"

text \<open>
  On ASCII \<^verbatim>\<open>unicode.ToLower\<close> adds 32 to a code point between \<open>A\<close> and \<open>Z\<close>
  (as \<^verbatim>\<open>hasPrefixFold\<close> writes out: \<^verbatim>\<open>rChar += 32\<close>), which sets the bit of weight 32
  of the code point; \<^verbatim>\<open>unicode.ToUpper\<close> clears it for a code point between \<open>a\<close>
  and \<open>z\<close> (\<open>toLowerRune_plus32\<close>, \<open>toUpperRune_minus32\<close>).
\<close>

definition toLowerRune :: "char \<Rightarrow> char" where
  "toLowerRune c =
     (if CHR ''A'' \<le> c \<and> c \<le> CHR ''Z''
      then (case c of Char b0 b1 b2 b3 b4 b5 b6 b7 \<Rightarrow> Char b0 b1 b2 b3 b4 True b6 b7)
      else c)"

definition toUpperRune :: "char \<Rightarrow> char" where
  "toUpperRune c =
     (if CHR ''a'' \<le> c \<and> c \<le> CHR ''z''
      then (case c of Char b0 b1 b2 b3 b4 b5 b6 b7 \<Rightarrow> Char b0 b1 b2 b3 b4 False b6 b7)
      else c)"

lemma toLowerRune_plus32:
  "CHR ''A'' \<le> c \<Longrightarrow> c \<le> CHR ''Z'' \<Longrightarrow> of_char (toLowerRune c) = (of_char c + 32 :: nat)"
  by (cases c) (auto simp: toLowerRune_def less_eq_char_def of_bool_def split: if_splits)

lemma toUpperRune_minus32:
  "CHR ''a'' \<le> c \<Longrightarrow> c \<le> CHR ''z'' \<Longrightarrow> of_char (toUpperRune c) = (of_char c - 32 :: nat)"
  by (cases c) (auto simp: toUpperRune_def less_eq_char_def of_bool_def split: if_splits)

definition ToLower :: "string \<Rightarrow> string" where
  "ToLower s = map toLowerRune s"

definition ToUpper :: "string \<Rightarrow> string" where
  "ToUpper s = map toUpperRune s"

text \<open>\<^verbatim>\<open>strings.HasPrefix(s, prefix)\<close>.\<close>

definition HasPrefix :: "string \<Rightarrow> string \<Rightarrow> bool" where
  "HasPrefix s p = (take (length p) s = p)"

text \<open>\<^verbatim>\<open>strings.Index(s, substr)\<close>; \<open>None\<close> is Go's \<open>-1\<close>.\<close>

fun Index :: "string \<Rightarrow> string \<Rightarrow> nat option" where
  "Index [] sub = (if sub = [] then Some 0 else None)"
| "Index (c # cs) sub =
     (if HasPrefix (c # cs) sub then Some 0 else map_option Suc (Index cs sub))"

text \<open>\<^verbatim>\<open>strings.Split(s, ".")\<close>: never empty, \<open>[""]\<close> on the empty string.\<close>

fun SplitDot :: "string \<Rightarrow> string list" where
  "SplitDot [] = [[]]"
| "SplitDot (c # cs) =
     (if c = CHR ''.'' then [] # SplitDot cs
      else (case SplitDot cs of [] \<Rightarrow> [[c]] | x # xs \<Rightarrow> (c # x) # xs))"

text \<open>\<^verbatim>\<open>strings.Join(parts, ".")\<close>.\<close>

fun JoinDot :: "string list \<Rightarrow> string" where
  "JoinDot [] = []"
| "JoinDot [x] = x"
| "JoinDot (x # y # ys) = x @ ''.'' @ JoinDot (y # ys)"

text \<open>\<^verbatim>\<open>strings.ReplaceAll(s, "`", "")\<close>.\<close>

definition stripBackticks :: "string \<Rightarrow> string" where
  "stripBackticks s = filter (\<lambda>c. c \<noteq> CHR ''`'') s"

text \<open>
  \<^verbatim>\<open>hasPrefix(r, offset, prefix)\<close> and \<^verbatim>\<open>hasPrefixFold(r, offset, prefix)\<close> of the
  second file: the bound check, then the comparison rune by rune.
\<close>

definition hasPrefix :: "string \<Rightarrow> nat \<Rightarrow> string \<Rightarrow> bool" where
  "hasPrefix r offset p =
     (if offset + length p > length r then False
      else take (length p) (drop offset r) = p)"

definition hasPrefixFold :: "string \<Rightarrow> nat \<Rightarrow> string \<Rightarrow> bool" where
  "hasPrefixFold r offset p =
     (if offset + length p > length r then False
      else map toLowerRune (take (length p) (drop offset r)) = map toLowerRune p)"

section \<open>Errors\<close>

text \<open>
  Every \<^verbatim>\<open>fmt.Errorf\<close> of the three files is a constructor; \<open>errorMessage\<close> gives its
  text. Where the two parser files word the same denial differently, the constructor of
  the second file ends in \<open>Short\<close>. \<open>IndexOutOfRange\<close> stands for the run-time panic
  of \<^verbatim>\<open>parts[0]\<close> on an empty slice.
\<close>

datatype error =
    UnclosedBacktick
  | UnclosedSubquery
  | CallNotAllowed
  | ExecuteImmediateNotAllowed
  | Unanalyzable string string
  | DatasetLevelOperation string string
  | CallNotAllowedShort
  | ExecuteImmediateNotAllowedShort
  | DatasetLevelOperationShort string string
  | MissingProject string
  | IndexOutOfRange
  | DryRunInsertFailed string
  | QueryValidationFailed error
  | NoQueryStatistics
  | DatasetLevelStatement string
  | StoredRoutineStatement string
  | CallStatement string
  | ExplicitReferenceAnalysisFailed error
  | AccessNotAllowed string
  | CouldNotAnalyze error

fun errorMessage :: "error \<Rightarrow> string" where
  "errorMessage UnclosedBacktick = ''unclosed backtick identifier''"
| "errorMessage UnclosedSubquery = ''unclosed subquery parenthesis''"
| "errorMessage CallNotAllowed =
     ''CALL is not allowed when dataset restrictions are in place, as the called procedure'' @ [CHR 0x27] @
     ''s contents cannot be safely analyzed''"
| "errorMessage ExecuteImmediateNotAllowed =
     ''EXECUTE IMMEDIATE is not allowed when dataset restrictions are in place, as its contents cannot be safely analyzed''"
| "errorMessage (Unanalyzable tok kw) =
     ''unanalyzable statements like '' @ [CHR 0x27] @ tok @ '' '' @ kw @ [CHR 0x27] @ '' are not allowed''"
| "errorMessage (DatasetLevelOperation verb kw) =
     ''dataset-level operations like '' @ [CHR 0x27] @ verb @ '' '' @ kw @ [CHR 0x27] @
     '' are not allowed when dataset restrictions are in place''"
| "errorMessage CallNotAllowedShort = ''CALL is not allowed when dataset restrictions are in place''"
| "errorMessage ExecuteImmediateNotAllowedShort =
     ''EXECUTE IMMEDIATE is not allowed when dataset restrictions are in place''"
| "errorMessage (DatasetLevelOperationShort verb kw) =
     ''dataset-level operations like '' @ [CHR 0x27] @ verb @ '' '' @ kw @ [CHR 0x27] @ '' are not allowed''"
| "errorMessage (MissingProject t) =
     ''query contains table '' @ [CHR 0x27] @ t @ [CHR 0x27] @
     '' without project ID, and no default project ID is provided''"
| "errorMessage IndexOutOfRange = ''runtime error: index out of range''"
| "errorMessage (DryRunInsertFailed m) = ''failed to insert dry run job: '' @ m"
| "errorMessage (QueryValidationFailed e) = ''query validation failed: '' @ errorMessage e"
| "errorMessage NoQueryStatistics = ''dry run failed to return query statistics''"
| "errorMessage (DatasetLevelStatement t) =
     ''dataset-level operations like '' @ [CHR 0x27] @ t @ [CHR 0x27] @
     '' are not allowed when dataset restrictions are in place''"
| "errorMessage (StoredRoutineStatement t) =
     ''creating stored routines ('' @ [CHR 0x27] @ t @ [CHR 0x27] @
     '') is not allowed when dataset restrictions are in place, as their contents cannot be safely analyzed''"
| "errorMessage (CallStatement t) =
     ''calling stored procedures ('' @ [CHR 0x27] @ t @ [CHR 0x27] @
     '') is not allowed when dataset restrictions are in place, as their contents cannot be safely analyzed''"
| "errorMessage (ExplicitReferenceAnalysisFailed e) =
     ''failed to analyze query for explicit table references: '' @ errorMessage e"
| "errorMessage (AccessNotAllowed d) =
     ''access to dataset '' @ [CHR 0x27] @ d @ [CHR 0x27] @ '' is not allowed''"
| "errorMessage (CouldNotAnalyze e) =
     ''could not safely analyze query with dataset restrictions: '' @ errorMessage e"

section \<open>formatTableID\<close>

text \<open>The function is the same, line for line, in both parser files.\<close>

definition formatTableID :: "string list \<Rightarrow> string \<Rightarrow> error + string" where
  "formatTableID parts defaultProjectID =
     (if length parts < 2 \<or> length parts > 3 then Inr []
      else if length parts = 3 then Inr (JoinDot parts)
      else if defaultProjectID = [] then Inl (MissingProject (JoinDot parts))
      else Inr (defaultProjectID @ ''.'' @ JoinDot parts))"

section \<open>The identifier scanner\<close>

text \<open>
  \<open>skipSpace\<close> is the inner loop
  \<^verbatim>\<open>for totalConsumed < len(runes) && unicode.IsSpace(runes[totalConsumed])\<close>, and
  \<open>identEnd\<close> the loop that advances \<^verbatim>\<open>end\<close> over letters, numbers, \<open>_\<close> and \<open>-\<close>.
\<close>

definition skipSpace :: "string \<Rightarrow> nat \<Rightarrow> nat" where
  "skipSpace runes totalConsumed =
     totalConsumed + length (takeWhile isSpace (drop totalConsumed runes))"

definition isIdentRune :: "char \<Rightarrow> bool" where
  "isIdentRune c = (isLetter c \<or> isNumber c \<or> c = CHR ''_'' \<or> c = CHR ''-'')"

definition identEnd :: "string \<Rightarrow> nat \<Rightarrow> nat" where
  "identEnd runes totalConsumed =
     totalConsumed + length (takeWhile isIdentRune (drop totalConsumed runes))"

text \<open>
  One pass of the \<^verbatim>\<open>if / else if / else\<close> that reads a part at \<open>totalConsumed\<close>
  (which is below \<open>length runes\<close>): the error of an unclosed backtick, \<open>None\<close> for
  the \<^verbatim>\<open>break\<close> of the last branch, or the part and the number of runes it takes.
\<close>

definition readPart :: "string \<Rightarrow> nat \<Rightarrow> error + (string \<times> nat) option" where
  "readPart runes totalConsumed =
     (if runes ! totalConsumed = CHR ''`'' then
        (case Index (drop (totalConsumed + 1) runes) ''`'' of
           None \<Rightarrow> Inl UnclosedBacktick
         | Some e \<Rightarrow> Inr (Some (take e (drop (totalConsumed + 1) runes), e + 2)))
      else if isLetter (runes ! totalConsumed) \<or> runes ! totalConsumed = CHR ''_'' then
        (let e = identEnd runes totalConsumed
         in Inr (Some (take (e - totalConsumed) (drop totalConsumed runes), e - totalConsumed)))
      else Inr None)"

text \<open>\<^verbatim>\<open>parseIdentifierSequence\<close> of \<^verbatim>\<open>table_name_parser.go\<close>.\<close>

function pisLoop_A :: "string \<Rightarrow> string list \<Rightarrow> nat \<Rightarrow> error + (string list \<times> nat)" where
  "pisLoop_A runes parts totalConsumed =
     (let tc = skipSpace runes totalConsumed
      in if tc \<ge> length runes then Inr (parts, tc)
         else (case readPart runes tc of
                 Inl e \<Rightarrow> Inl e
               | Inr None \<Rightarrow> Inr (parts, tc)
               | Inr (Some (part, consumed)) \<Rightarrow>
                   (let parts' = parts @ SplitDot part; tc' = tc + consumed
                    in if tc' \<ge> length runes \<or> runes ! tc' \<noteq> CHR ''.'' then Inr (parts', tc')
                       else pisLoop_A runes parts' (tc' + 1))))"
  by pat_completeness auto

lemma skipSpace_ge: "totalConsumed \<le> skipSpace runes totalConsumed"
  by (simp add: skipSpace_def)

termination pisLoop_A
proof (relation "measure (\<lambda>(runes, parts, totalConsumed). length runes - totalConsumed)")
  show "wf (measure (\<lambda>(runes, parts, totalConsumed). length runes - totalConsumed))"
    by simp
next
  fix runes :: string and parts :: "string list" and totalConsumed tc :: nat
    and x :: "(string \<times> nat) option" and y :: "string \<times> nat" and part :: string
    and consumed :: nat and parts' :: "string list" and tc' :: nat
  assume "tc = skipSpace runes totalConsumed" "tc' = tc + consumed"
    "\<not> (length runes \<le> tc' \<or> runes ! tc' \<noteq> CHR ''.'')"
  then have "totalConsumed \<le> tc'" "tc' < length runes"
    using skipSpace_ge [of totalConsumed runes] by auto
  then show "((runes, parts', tc' + 1), (runes, parts, totalConsumed))
      \<in> measure (\<lambda>(runes, parts, totalConsumed). length runes - totalConsumed)"
    by auto
qed

definition parseIdentifierSequence_A :: "string \<Rightarrow> error + (string list \<times> nat)" where
  "parseIdentifierSequence_A s = pisLoop_A s [] 0"

text \<open>
  \<^verbatim>\<open>parseIdentifierSequence\<close> of the second file. \<open>skipTrivia\<close> is its loop
  "Skip whitespace and comments", written twice in the source (before a part and
  before a potential dot): it repeats until a pass consumes nothing.
\<close>

definition skipTriviaPass :: "string \<Rightarrow> nat \<Rightarrow> nat" where
  "skipTriviaPass runes totalConsumed =
     (let tc = skipSpace runes totalConsumed
      in if hasPrefix runes tc ''/*'' then
           (case Index (drop tc runes) ''*/'' of None \<Rightarrow> tc | Some endIdx \<Rightarrow> tc + endIdx + 2)
         else if hasPrefix runes tc ''--'' \<or> (tc < length runes \<and> runes ! tc = CHR ''#'') then
           (case Index (drop tc runes) [CHR 0x0A] of
              None \<Rightarrow> length runes
            | Some endIdx \<Rightarrow> tc + endIdx + 1)
         else tc)"

function skipTrivia :: "string \<Rightarrow> nat \<Rightarrow> nat" where
  "skipTrivia runes totalConsumed =
     (let tc = skipTriviaPass runes totalConsumed
      in if tc = totalConsumed then tc else skipTrivia runes tc)"
  by pat_completeness auto

declare pisLoop_A.simps [simp del]

lemma Index_bound: "Index s sub = Some e \<Longrightarrow> e + length sub \<le> length s"
proof (induction s arbitrary: e)
  case Nil
  then show ?case by (simp split: if_splits)
next
  case (Cons c cs)
  show ?case
  proof (cases "HasPrefix (c # cs) sub")
    case True
    then have "length (take (length sub) (c # cs)) = length sub"
      by (simp add: HasPrefix_def)
    then have "length sub \<le> length (c # cs)"
      by (simp only: length_take)
    with True Cons.prems show ?thesis by simp
  next
    case False
    with Cons.prems obtain e' where "Index cs sub = Some e'" "e = Suc e'"
      by auto
    with Cons.IH show ?thesis by fastforce
  qed
qed

lemma skipSpace_past_end: "length runes \<le> t \<Longrightarrow> skipSpace runes t = t"
  by (simp add: skipSpace_def)

lemma hasPrefix_bound: "hasPrefix runes t p \<Longrightarrow> t + length p \<le> length runes"
  by (simp add: hasPrefix_def split: if_splits)

lemma skipTriviaPass_ge: "t \<le> skipTriviaPass runes t"
proof -
  define tc where "tc = skipSpace runes t"
  have le: "t \<le> tc" unfolding tc_def by (rule skipSpace_ge)
  have "tc \<le> (if hasPrefix runes tc ''/*'' then
           (case Index (drop tc runes) ''*/'' of None \<Rightarrow> tc | Some endIdx \<Rightarrow> tc + endIdx + 2)
         else if hasPrefix runes tc ''--'' \<or> (tc < length runes \<and> runes ! tc = CHR ''#'') then
           (case Index (drop tc runes) [CHR 0x0A] of
              None \<Rightarrow> length runes
            | Some endIdx \<Rightarrow> tc + endIdx + 1)
         else tc)"
    using hasPrefix_bound [of runes tc "''--''"]
    by (auto split: option.splits)
  with le show ?thesis
    unfolding skipTriviaPass_def Let_def tc_def by linarith
qed

lemma skipTriviaPass_past_end: "length runes \<le> t \<Longrightarrow> skipTriviaPass runes t = t"
  by (simp add: skipTriviaPass_def skipSpace_past_end hasPrefix_def)

termination skipTrivia
proof (relation "measure (\<lambda>(runes, totalConsumed). length runes - totalConsumed)")
  show "wf (measure (\<lambda>(runes, totalConsumed). length runes - totalConsumed))"
    by simp
next
  fix runes :: string and totalConsumed tc :: nat
  assume tc: "tc = skipTriviaPass runes totalConsumed" and ne: "tc \<noteq> totalConsumed"
  from tc ne have "totalConsumed < length runes"
    using skipTriviaPass_past_end [of runes totalConsumed] by (cases "totalConsumed < length runes") auto
  moreover from tc ne have "totalConsumed < tc"
    using skipTriviaPass_ge [of totalConsumed runes] by simp
  ultimately show "((runes, tc), (runes, totalConsumed))
      \<in> measure (\<lambda>(runes, totalConsumed). length runes - totalConsumed)"
    by auto
qed

declare skipTrivia.simps [simp del]

lemma skipTrivia_ge: "t \<le> skipTrivia runes t"
proof (induction runes t rule: skipTrivia.induct)
  case (1 runes t)
  show ?case
  proof (cases "skipTriviaPass runes t = t")
    case True
    then show ?thesis by (subst skipTrivia.simps) simp
  next
    case False
    with "1.IH" have "skipTriviaPass runes t \<le> skipTrivia runes (skipTriviaPass runes t)"
      by simp
    moreover have "t \<le> skipTriviaPass runes t" by (rule skipTriviaPass_ge)
    ultimately show ?thesis using False by (subst skipTrivia.simps) (simp add: Let_def)
  qed
qed

function pisLoop_B :: "string \<Rightarrow> string list \<Rightarrow> nat \<Rightarrow> error + (string list \<times> nat)" where
  "pisLoop_B runes parts totalConsumed =
     (let tc = skipTrivia runes totalConsumed
      in if tc \<ge> length runes then Inr (parts, tc)
         else (case readPart runes tc of
                 Inl e \<Rightarrow> Inl e
               | Inr None \<Rightarrow> Inr (parts, tc)
               | Inr (Some (part, consumed)) \<Rightarrow>
                   (let parts' = parts @ SplitDot part; tc' = skipTrivia runes (tc + consumed)
                    in if tc' \<ge> length runes \<or> runes ! tc' \<noteq> CHR ''.'' then Inr (parts', tc')
                       else pisLoop_B runes parts' (tc' + 1))))"
  by pat_completeness auto

termination pisLoop_B
proof (relation "measure (\<lambda>(runes, parts, totalConsumed). length runes - totalConsumed)")
  show "wf (measure (\<lambda>(runes, parts, totalConsumed). length runes - totalConsumed))"
    by simp
next
  fix runes :: string and parts :: "string list" and totalConsumed tc :: nat
    and x :: "(string \<times> nat) option" and y :: "string \<times> nat" and part :: string
    and consumed :: nat and parts' :: "string list" and tc' :: nat
  assume "tc = skipTrivia runes totalConsumed" "tc' = skipTrivia runes (tc + consumed)"
    "\<not> (length runes \<le> tc' \<or> runes ! tc' \<noteq> CHR ''.'')"
  then have "totalConsumed \<le> tc'" "tc' < length runes"
    using skipTrivia_ge [of totalConsumed runes] skipTrivia_ge [of "tc + consumed" runes] by auto
  then show "((runes, parts', tc' + 1), (runes, parts, totalConsumed))
      \<in> measure (\<lambda>(runes, parts, totalConsumed). length runes - totalConsumed)"
    by auto
qed

declare pisLoop_B.simps [simp del]

definition parseIdentifierSequence_B :: "string \<Rightarrow> error + (string list \<times> nat)" where
  "parseIdentifierSequence_B runes = pisLoop_B runes [] 0"

section \<open>The SQL state machine\<close>

datatype parserState =
    stateNormal
  | stateInSingleQuoteString
  | stateInDoubleQuoteString
  | stateInTripleSingleQuoteString
  | stateInTripleDoubleQuoteString
  | stateInRawSingleQuoteString
  | stateInRawDoubleQuoteString
  | stateInRawTripleSingleQuoteString
  | stateInRawTripleDoubleQuoteString
  | stateInSingleLineCommentDash
  | stateInSingleLineCommentHash
  | stateInMultiLineComment

text \<open>
  The local variables of one \<^verbatim>\<open>parseSQL\<close> call (\<open>idx\<close> is the loop variable
  \<^verbatim>\<open>i\<close>) together with the three maps the call shares with its caller.
\<close>

record parseContext =
  state :: parserState
  idx :: nat
  expectingTable :: bool
  expectingAlias :: bool
  expectingCTE :: bool
  lastTableKeyword :: string
  lastToken :: string
  statementVerb :: string
  tableIDSet :: "string list"
  visitedSQLs :: "string set"
  aliases :: "string set"

definition tableFollowsKeywords :: "string list" where
  "tableFollowsKeywords =
     [''from'', ''join'', ''update'', ''into'', ''table'', ''using'', ''insert'', ''merge'']"

definition tableContextExitKeywords_A :: "string list" where
  "tableContextExitKeywords_A =
     [''where'', ''group'', ''having'', ''order'', ''limit'', ''window'', ''on'', ''set'', ''when'']"

definition tableContextExitKeywords_B :: "string list" where
  "tableContextExitKeywords_B =
     [''where'', ''group'', ''order'', ''having'', ''limit'', ''window'', ''union'', ''intersect'',
      ''except'', ''on'', ''set'', ''when'']"

definition statementVerbs :: "string list" where
  "statementVerbs =
     [''create'', ''alter'', ''drop'', ''select'', ''insert'', ''update'', ''delete'', ''merge'']"

text \<open>\<^verbatim>\<open>tableIDSet[tableID] = struct{}{}\<close> on the list of keys.\<close>

definition insertKey :: "string \<Rightarrow> string list \<Rightarrow> string list" where
  "insertKey k ks = (if k \<in> set ks then ks else ks @ [k])"

text \<open>
  What one iteration of the loop does: go on with a new context (\<^verbatim>\<open>continue\<close>, or
  the end of the \<^verbatim>\<open>switch\<close>), call \<^verbatim>\<open>parseSQL\<close> on the text after an opening
  parenthesis, call \<^verbatim>\<open>findAndParseSQLString\<close> after an identifier of the given length
  (second file only), return a count, or return an error.
\<close>

datatype action =
    Continue parseContext
  | Subquery
  | DynamicSQL nat
  | Return nat
  | Fail error

text \<open>
  The cases of the \<^verbatim>\<open>switch\<close> for the string and comment states. The first file
  tests \<^verbatim>\<open>strings.HasPrefix(string(runes[i:]), p)\<close>, the second
  \<^verbatim>\<open>hasPrefix(runes, i, p)\<close>; the two agree (\<open>hasPrefix_HasPrefix\<close> below), and the
  cases are otherwise the same text.
\<close>

definition stringStep :: "string \<Rightarrow> parseContext \<Rightarrow> parseContext" where
  "stringStep runes c =
     (let i = idx c; char = runes ! i
      in case state c of
           stateNormal \<Rightarrow> c
         | stateInSingleQuoteString \<Rightarrow>
             (if char = CHR 0x5C then c\<lparr>idx := i + 2\<rparr>
              else if char = CHR 0x27 then c\<lparr>state := stateNormal, idx := i + 1\<rparr>
              else c\<lparr>idx := i + 1\<rparr>)
         | stateInDoubleQuoteString \<Rightarrow>
             (if char = CHR 0x5C then c\<lparr>idx := i + 2\<rparr>
              else if char = CHR 0x22 then c\<lparr>state := stateNormal, idx := i + 1\<rparr>
              else c\<lparr>idx := i + 1\<rparr>)
         | stateInTripleSingleQuoteString \<Rightarrow>
             (if HasPrefix (drop i runes) [CHR 0x27, CHR 0x27, CHR 0x27]
              then c\<lparr>state := stateNormal, idx := i + 3\<rparr> else c\<lparr>idx := i + 1\<rparr>)
         | stateInTripleDoubleQuoteString \<Rightarrow>
             (if HasPrefix (drop i runes) [CHR 0x22, CHR 0x22, CHR 0x22]
              then c\<lparr>state := stateNormal, idx := i + 3\<rparr> else c\<lparr>idx := i + 1\<rparr>)
         | stateInSingleLineCommentDash \<Rightarrow>
             (if char = CHR 0x0A then c\<lparr>state := stateNormal, idx := i + 1\<rparr>
              else c\<lparr>idx := i + 1\<rparr>)
         | stateInSingleLineCommentHash \<Rightarrow>
             (if char = CHR 0x0A then c\<lparr>state := stateNormal, idx := i + 1\<rparr>
              else c\<lparr>idx := i + 1\<rparr>)
         | stateInMultiLineComment \<Rightarrow>
             (if HasPrefix (drop i runes) ''*/''
              then c\<lparr>state := stateNormal, idx := i + 2\<rparr> else c\<lparr>idx := i + 1\<rparr>)
         | stateInRawSingleQuoteString \<Rightarrow>
             (if char = CHR 0x27 then c\<lparr>state := stateNormal, idx := i + 1\<rparr>
              else c\<lparr>idx := i + 1\<rparr>)
         | stateInRawDoubleQuoteString \<Rightarrow>
             (if char = CHR 0x22 then c\<lparr>state := stateNormal, idx := i + 1\<rparr>
              else c\<lparr>idx := i + 1\<rparr>)
         | stateInRawTripleSingleQuoteString \<Rightarrow>
             (if HasPrefix (drop i runes) [CHR 0x27, CHR 0x27, CHR 0x27]
              then c\<lparr>state := stateNormal, idx := i + 3\<rparr> else c\<lparr>idx := i + 1\<rparr>)
         | stateInRawTripleDoubleQuoteString \<Rightarrow>
             (if HasPrefix (drop i runes) [CHR 0x22, CHR 0x22, CHR 0x22]
              then c\<lparr>state := stateNormal, idx := i + 3\<rparr> else c\<lparr>idx := i + 1\<rparr>))"

subsection \<open>The sections of the identifier dispatch\<close>

text \<open>
  "Handle security-restricted operations and verb identification" of the first file:
  the \<^verbatim>\<open>switch keyword\<close>, then the test for dataset-level operations, both under
  \<^verbatim>\<open>len(parts) == 1\<close>.
\<close>

definition verbSwitch_A :: "string \<Rightarrow> parseContext \<Rightarrow> error + parseContext" where
  "verbSwitch_A keyword c =
     (if keyword = ''call'' then Inl CallNotAllowed
      else if keyword = ''immediate'' then
        (if lastToken c = ''execute'' then Inl ExecuteImmediateNotAllowed else Inr c)
      else if keyword = ''procedure'' \<or> keyword = ''function'' then
        (if lastToken c = ''create'' \<or> lastToken c = ''create or replace''
         then Inl (Unanalyzable (ToUpper (lastToken c)) (ToUpper keyword)) else Inr c)
      else if keyword \<in> set statementVerbs then
        Inr (if statementVerb c = [] then c\<lparr>statementVerb := keyword\<rparr> else c)
      else Inr c)"

definition gate_A :: "string list \<Rightarrow> string \<Rightarrow> parseContext \<Rightarrow> error + parseContext" where
  "gate_A parts keyword c =
     (if length parts = 1 then
        (case verbSwitch_A keyword c of
           Inl e \<Rightarrow> Inl e
         | Inr c1 \<Rightarrow>
             if (statementVerb c1 = ''create'' \<or> statementVerb c1 = ''alter'' \<or> statementVerb c1 = ''drop'')
                \<and> (keyword = ''schema'' \<or> keyword = ''dataset'')
             then Inl (DatasetLevelOperation (ToUpper (statementVerb c1)) (ToUpper keyword))
             else Inr c1)
      else Inr c)"

text \<open>"Security check for restricted statements" of the second file: four tests in a row,
  on the first part of the identifier, whatever the number of parts.\<close>

definition gate_B :: "string \<Rightarrow> parseContext \<Rightarrow> error option" where
  "gate_B keyword c =
     (if keyword = ''immediate'' \<and> lastToken c = ''execute'' then Some ExecuteImmediateNotAllowedShort
      else if (lastToken c = ''create'' \<or> lastToken c = ''create or'' \<or> lastToken c = ''create or replace'')
              \<and> (keyword = ''procedure'' \<or> keyword = ''function'' \<or> keyword = ''table function'')
      then Some (Unanalyzable
                  (let tokenToReport = ToUpper (lastToken c)
                   in if tokenToReport = [] then ''CREATE'' else tokenToReport)
                  (ToUpper keyword))
      else if keyword = ''call'' then Some CallNotAllowedShort
      else if (statementVerb c = ''create'' \<or> statementVerb c = ''alter'' \<or> statementVerb c = ''drop'')
              \<and> (keyword = ''schema'' \<or> keyword = ''dataset'')
      then Some (DatasetLevelOperationShort (ToUpper (statementVerb c)) (ToUpper keyword))
      else None)"

text \<open>
  "Resolve aliases and identify table references" up to and with "Re-check aliases after
  potential registration": the new context and \<^verbatim>\<open>isKnownAlias\<close>. The code is the same
  in both files; \<open>exitKeywords\<close> is the file's \<^verbatim>\<open>tableContextExitKeywords\<close>.
\<close>

definition resolveAlias ::
  "string list \<Rightarrow> string list \<Rightarrow> string \<Rightarrow> string \<Rightarrow> parseContext \<Rightarrow> parseContext \<times> bool" where
  "resolveAlias exitKeywords parts keyword fullID c =
     (let isKnownAlias = (fullID \<in> aliases c \<or> (length parts > 1 \<and> keyword \<in> aliases c));
          (c1, isKnownAlias1) =
            (if expectingCTE c then
               (c\<lparr>aliases := insert keyword (insert fullID (aliases c)), expectingCTE := False\<rparr>,
                isKnownAlias)
             else if expectingAlias c then
               (if length parts = 1 \<and>
                   (keyword \<in> set exitKeywords \<or> keyword \<in> set tableFollowsKeywords
                    \<or> keyword = ''select'' \<or> keyword = ''with'')
                then (c\<lparr>expectingAlias := False\<rparr>, isKnownAlias)
                else (c\<lparr>aliases := insert keyword (insert fullID (aliases c)),
                        expectingAlias := False\<rparr>, True))
             else (c, isKnownAlias))
      in (c1, isKnownAlias1 \<or> fullID \<in> aliases c1))"

text \<open>The block \<^verbatim>\<open>if expectingTable && !isKnownAlias\<close>, the same in both files.\<close>

definition collectTable ::
  "string list \<Rightarrow> string \<Rightarrow> bool \<Rightarrow> parseContext \<Rightarrow> error + parseContext" where
  "collectTable parts defaultProjectID isKnownAlias c =
     (if expectingTable c \<and> \<not> isKnownAlias then
        (case (if length parts \<ge> 2 then
                 (case formatTableID parts defaultProjectID of
                    Inl e \<Rightarrow> Inl e
                  | Inr tableID \<Rightarrow>
                      Inr (if tableID \<noteq> [] then c\<lparr>tableIDSet := insertKey tableID (tableIDSet c)\<rparr>
                           else c))
               else Inr c) of
           Inl e \<Rightarrow> Inl e
         | Inr c1 \<Rightarrow>
             Inr ((if lastTableKeyword c1 \<noteq> ''from'' then c1\<lparr>expectingTable := False\<rparr> else c1)
                    \<lparr>expectingAlias := True\<rparr>))
      else Inr c)"

text \<open>
  "Update state machine based on the current keyword", for a single-part identifier:
  the chain \<^verbatim>\<open>with / as / tableFollowsKeywords / tableContextExitKeywords\<close>, then the
  \<^verbatim>\<open>lastToken\<close> chain, then (second file only) "Also track statement verb for schema
  checks".
\<close>

definition keywordContext :: "string list \<Rightarrow> string \<Rightarrow> parseContext \<Rightarrow> parseContext" where
  "keywordContext exitKeywords keyword c =
     (if keyword = ''with'' then c\<lparr>expectingCTE := True, statementVerb := ''with''\<rparr>
      else if keyword = ''as'' then
        (if statementVerb c \<noteq> ''with'' then c\<lparr>expectingAlias := True\<rparr> else c)
          \<lparr>expectingTable := False\<rparr>
      else if keyword \<in> set tableFollowsKeywords then
        c\<lparr>expectingTable := True, lastTableKeyword := keyword, expectingAlias := False\<rparr>
      else if keyword \<in> set exitKeywords then
        c\<lparr>expectingTable := False, lastTableKeyword := [], expectingAlias := False\<rparr>
      else c)"

definition nextLastToken :: "string \<Rightarrow> parseContext \<Rightarrow> parseContext" where
  "nextLastToken keyword c =
     (if lastToken c = ''create'' \<and> keyword = ''or'' then c\<lparr>lastToken := ''create or''\<rparr>
      else if lastToken c = ''create or'' \<and> keyword = ''replace''
      then c\<lparr>lastToken := ''create or replace''\<rparr>
      else c\<lparr>lastToken := keyword\<rparr>)"

definition adoptVerb :: "string \<Rightarrow> parseContext \<Rightarrow> parseContext" where
  "adoptVerb keyword c =
     (if keyword = ''select'' \<or> keyword = ''insert'' \<or> keyword = ''update'' \<or> keyword = ''delete''
         \<or> keyword = ''merge'' \<or> keyword = ''create'' \<or> keyword = ''alter'' \<or> keyword = ''drop''
      then (if statementVerb c = [] \<or> statementVerb c = ''with''
            then c\<lparr>statementVerb := keyword\<rparr> else c)
      else c)"

definition updateKeyword_A :: "string list \<Rightarrow> string \<Rightarrow> parseContext \<Rightarrow> parseContext" where
  "updateKeyword_A parts keyword c =
     (if length parts = 1
      then nextLastToken keyword (keywordContext tableContextExitKeywords_A keyword c)
      else c\<lparr>lastToken := []\<rparr>)"

definition updateKeyword_B :: "string list \<Rightarrow> string \<Rightarrow> parseContext \<Rightarrow> parseContext" where
  "updateKeyword_B parts keyword c =
     (if length parts = 1
      then adoptVerb keyword (nextLastToken keyword (keywordContext tableContextExitKeywords_B keyword c))
      else c\<lparr>lastToken := []\<rparr>)"
subsection \<open>One iteration in Normal state\<close>

abbreviation (input) SQ :: char where "SQ \<equiv> CHR 0x27"
abbreviation (input) DQ :: char where "DQ \<equiv> CHR 0x22"

text \<open>
  The tests of \<^verbatim>\<open>case stateNormal\<close> that come before the identifier test, in the
  order of the source; \<open>None\<close> when none of them leaves the iteration (an opening
  parenthesis that starts no subquery and a closing one outside a subquery fall through,
  as in the source).
\<close>

definition punctuation_A :: "string \<Rightarrow> bool \<Rightarrow> parseContext \<Rightarrow> action option" where
  "punctuation_A runes inSubquery c =
     (let i = idx c; remaining = drop i runes; char = runes ! i; remLow = ToLower remaining
      in if HasPrefix remaining ''--'' then
           Some (Continue (c\<lparr>state := stateInSingleLineCommentDash, idx := i + 2\<rparr>))
         else if HasPrefix remaining ''#'' then
           Some (Continue (c\<lparr>state := stateInSingleLineCommentHash, idx := i + 1\<rparr>))
         else if HasPrefix remaining ''/*'' then
           Some (Continue (c\<lparr>state := stateInMultiLineComment, idx := i + 2\<rparr>))
         else if char = CHR '','' then
           Some (Continue
             ((if lastTableKeyword c = ''from'' then c\<lparr>expectingTable := True, expectingAlias := False\<rparr>
               else if statementVerb c = ''with'' then c\<lparr>expectingCTE := True, expectingAlias := False\<rparr>
               else c)\<lparr>idx := i + 1\<rparr>))
         else if char = CHR ''('' \<and> (expectingTable c \<or> expectingCTE c \<or> lastToken c = ''as'') then
           Some Subquery
         else if char = CHR '')'' \<and> inSubquery then Some (Return (i + 1))
         else if char = CHR '';'' then
           Some (Continue (c\<lparr>statementVerb := [], lastToken := [], expectingTable := False,
                            expectingAlias := False, expectingCTE := False, idx := i + 1\<rparr>))
         else if HasPrefix remLow [CHR ''r'', SQ, SQ, SQ] then
           Some (Continue (c\<lparr>state := stateInRawTripleSingleQuoteString, idx := i + 4\<rparr>))
         else if HasPrefix remLow [CHR ''r'', DQ, DQ, DQ] then
           Some (Continue (c\<lparr>state := stateInRawTripleDoubleQuoteString, idx := i + 4\<rparr>))
         else if HasPrefix remLow [CHR ''r'', SQ] then
           Some (Continue (c\<lparr>state := stateInRawSingleQuoteString, idx := i + 2\<rparr>))
         else if HasPrefix remLow [CHR ''r'', DQ] then
           Some (Continue (c\<lparr>state := stateInRawDoubleQuoteString, idx := i + 2\<rparr>))
         else if HasPrefix remaining [SQ, SQ, SQ] then
           Some (Continue (c\<lparr>state := stateInTripleSingleQuoteString, idx := i + 3\<rparr>))
         else if HasPrefix remaining [DQ, DQ, DQ] then
           Some (Continue (c\<lparr>state := stateInTripleDoubleQuoteString, idx := i + 3\<rparr>))
         else if char = SQ then
           Some (Continue (c\<lparr>state := stateInSingleQuoteString, idx := i + 1\<rparr>))
         else if char = DQ then
           Some (Continue (c\<lparr>state := stateInDoubleQuoteString, idx := i + 1\<rparr>))
         else None)"

definition punctuation_B :: "string \<Rightarrow> bool \<Rightarrow> parseContext \<Rightarrow> action option" where
  "punctuation_B runes inSubquery c =
     (let i = idx c; char = runes ! i
      in if hasPrefix runes i ''--'' then
           Some (Continue (c\<lparr>state := stateInSingleLineCommentDash, idx := i + 2\<rparr>))
         else if char = CHR ''#'' then
           Some (Continue (c\<lparr>state := stateInSingleLineCommentHash, idx := i + 1\<rparr>))
         else if hasPrefix runes i ''/*'' then
           Some (Continue (c\<lparr>state := stateInMultiLineComment, idx := i + 2\<rparr>))
         else if char = CHR '','' then
           Some (Continue
             ((if lastTableKeyword c = ''from'' then c\<lparr>expectingTable := True, expectingAlias := False\<rparr>
               else if statementVerb c = ''with'' then c\<lparr>expectingCTE := True, expectingAlias := False\<rparr>
               else c)\<lparr>idx := i + 1\<rparr>))
         else if char = CHR ''('' \<and> (expectingTable c \<or> expectingCTE c \<or> lastToken c = ''as'') then
           Some Subquery
         else if char = CHR '')'' \<and> inSubquery then Some (Return (i + 1))
         else if char = CHR '';'' then
           Some (Continue (c\<lparr>statementVerb := [], lastToken := [], expectingTable := False,
                            expectingAlias := False, expectingCTE := False, idx := i + 1\<rparr>))
         else if hasPrefixFold runes i [CHR ''r'', SQ, SQ, SQ] then
           Some (Continue (c\<lparr>state := stateInRawTripleSingleQuoteString, idx := i + 4\<rparr>))
         else if hasPrefixFold runes i [CHR ''r'', DQ, DQ, DQ] then
           Some (Continue (c\<lparr>state := stateInRawTripleDoubleQuoteString, idx := i + 4\<rparr>))
         else if hasPrefixFold runes i [CHR ''r'', SQ] then
           Some (Continue (c\<lparr>state := stateInRawSingleQuoteString, idx := i + 2\<rparr>))
         else if hasPrefixFold runes i [CHR ''r'', DQ] then
           Some (Continue (c\<lparr>state := stateInRawDoubleQuoteString, idx := i + 2\<rparr>))
         else if hasPrefix runes i [SQ, SQ, SQ] then
           Some (Continue (c\<lparr>state := stateInTripleSingleQuoteString, idx := i + 3\<rparr>))
         else if hasPrefix runes i [DQ, DQ, DQ] then
           Some (Continue (c\<lparr>state := stateInTripleDoubleQuoteString, idx := i + 3\<rparr>))
         else if char = SQ then
           Some (Continue (c\<lparr>state := stateInSingleQuoteString, idx := i + 1\<rparr>))
         else if char = DQ then
           Some (Continue (c\<lparr>state := stateInDoubleQuoteString, idx := i + 1\<rparr>))
         else None)"

text \<open>
  The body of \<^verbatim>\<open>if unicode.IsLetter(char) || char == '`' || char == '_'\<close>, the sections
  in the order of the source. \<^verbatim>\<open>parts[0]\<close> on an empty slice panics.
\<close>

definition identifier_A :: "string \<Rightarrow> string \<Rightarrow> parseContext \<Rightarrow> action" where
  "identifier_A runes defaultProjectID c =
     (case parseIdentifierSequence_A (drop (idx c) runes) of
        Inl e \<Rightarrow> Fail e
      | Inr (parts, consumed) \<Rightarrow>
          if consumed = 0 then Continue (c\<lparr>idx := idx c + 1\<rparr>)
          else (case parts of
                  [] \<Rightarrow> Fail IndexOutOfRange
                | p0 # _ \<Rightarrow>
                    (let keyword = ToLower p0; fullID = ToLower (JoinDot parts)
                     in case gate_A parts keyword c of
                          Inl e \<Rightarrow> Fail e
                        | Inr c1 \<Rightarrow>
                            (case resolveAlias tableContextExitKeywords_A parts keyword fullID c1 of
                               (c2, isKnownAlias) \<Rightarrow>
                                 (case collectTable parts defaultProjectID isKnownAlias c2 of
                                    Inl e \<Rightarrow> Fail e
                                  | Inr c3 \<Rightarrow>
                                      Continue ((updateKeyword_A parts keyword c3)
                                                  \<lparr>idx := idx c + consumed\<rparr>))))))"

definition identifier_B :: "string \<Rightarrow> string \<Rightarrow> parseContext \<Rightarrow> action" where
  "identifier_B runes defaultProjectID c =
     (case parseIdentifierSequence_B (drop (idx c) runes) of
        Inl e \<Rightarrow> Fail e
      | Inr (parts, consumed) \<Rightarrow>
          if consumed = 0 then Continue (c\<lparr>idx := idx c + 1\<rparr>)
          else (case parts of
                  [] \<Rightarrow> Fail IndexOutOfRange
                | p0 # _ \<Rightarrow>
                    (let keyword = ToLower p0; fullID = ToLower (JoinDot parts)
                     in case gate_B keyword c of
                          Some e \<Rightarrow> Fail e
                        | None \<Rightarrow>
                            if lastToken c = ''execute'' \<and> keyword = ''immediate''
                            then DynamicSQL consumed
                            else (case resolveAlias tableContextExitKeywords_B parts keyword fullID c of
                               (c2, isKnownAlias) \<Rightarrow>
                                 (case collectTable parts defaultProjectID isKnownAlias c2 of
                                    Inl e \<Rightarrow> Fail e
                                  | Inr c3 \<Rightarrow>
                                      Continue ((updateKeyword_B parts keyword c3)
                                                  \<lparr>idx := idx c + consumed\<rparr>))))))"

definition isIdentStart :: "char \<Rightarrow> bool" where
  "isIdentStart char = (isLetter char \<or> char = CHR ''`'' \<or> char = CHR ''_'')"

definition step_A :: "string \<Rightarrow> string \<Rightarrow> bool \<Rightarrow> parseContext \<Rightarrow> action" where
  "step_A runes defaultProjectID inSubquery c =
     (if state c = stateNormal then
        (case punctuation_A runes inSubquery c of
           Some a \<Rightarrow> a
         | None \<Rightarrow>
             if isIdentStart (runes ! idx c) then identifier_A runes defaultProjectID c
             else Continue (c\<lparr>idx := idx c + 1\<rparr>))
      else Continue (stringStep runes c))"

definition step_B :: "string \<Rightarrow> string \<Rightarrow> bool \<Rightarrow> parseContext \<Rightarrow> action" where
  "step_B runes defaultProjectID inSubquery c =
     (if state c = stateNormal then
        (case punctuation_B runes inSubquery c of
           Some a \<Rightarrow> a
         | None \<Rightarrow>
             if isIdentStart (runes ! idx c) then identifier_B runes defaultProjectID c
             else Continue (c\<lparr>idx := idx c + 1\<rparr>))
      else Continue (stringStep runes c))"

subsection \<open>findAndParseSQLString (second file)\<close>

text \<open>
  \<open>quoteEnd\<close> is the loop \<^verbatim>\<open>for j := i + 1; j < len(runes); j++\<close> that looks for the
  closing quote and steps over a backslash and the rune after it. \<open>findSQLString\<close> is
  the outer loop up to the call of \<^verbatim>\<open>parseSQL\<close>: the content of the first string literal
  and the count the function returns after parsing it, \<open>None\<close> when the loop ends
  without a literal (the function then returns \<^verbatim>\<open>len(runes)\<close>).
\<close>

function quoteEnd :: "string \<Rightarrow> char \<Rightarrow> nat \<Rightarrow> nat option" where
  "quoteEnd runes q j =
     (if j < length runes then
        (if runes ! j = CHR 0x5C then quoteEnd runes q (j + 2)
         else if runes ! j = q then Some j
         else quoteEnd runes q (j + 1))
      else None)"
  by pat_completeness auto
termination
  by (relation "measure (\<lambda>(runes, q, j). length runes - j)") auto

declare quoteEnd.simps [simp del]

definition tripleAt :: "string \<Rightarrow> nat \<Rightarrow> string \<Rightarrow> (string \<times> nat) option" where
  "tripleAt runes i q3 =
     (if hasPrefix runes i q3 then
        (case Index (drop (i + 3) runes) q3 of
           None \<Rightarrow> None
         | Some e \<Rightarrow> Some (take e (drop (i + 3) runes), i + 3 + e + 3))
      else None)"

definition quotedAt :: "string \<Rightarrow> nat \<Rightarrow> char \<Rightarrow> (string \<times> nat) option" where
  "quotedAt runes i q =
     (if runes ! i = q then
        (case quoteEnd runes q (i + 1) of
           None \<Rightarrow> None
         | Some j \<Rightarrow> Some (take (j - (i + 1)) (drop (i + 1) runes), j + 1))
      else None)"

function findSQLString :: "string \<Rightarrow> nat \<Rightarrow> (string \<times> nat) option" where
  "findSQLString runes i =
     (if i < length runes then
        (case tripleAt runes i [SQ, SQ, SQ] of
           Some r \<Rightarrow> Some r
         | None \<Rightarrow>
             (case tripleAt runes i [DQ, DQ, DQ] of
                Some r \<Rightarrow> Some r
              | None \<Rightarrow>
                  (case quotedAt runes i SQ of
                     Some r \<Rightarrow> Some r
                   | None \<Rightarrow>
                       (case quotedAt runes i DQ of
                          Some r \<Rightarrow> Some r
                        | None \<Rightarrow> findSQLString runes (i + 1)))))
      else None)"
  by pat_completeness auto
termination
  by (relation "measure (\<lambda>(runes, i). length runes - i)") auto

declare findSQLString.simps [simp del]
subsection \<open>parseSQL and TableParser\<close>

text \<open>
  The two parser files are told apart by a \<open>parserFile\<close>. The skeleton of
  \<^verbatim>\<open>parseSQL\<close> (the visited-SQL test, the loop, the call for a subquery and what
  follows it, the two returns after the loop) is the same text in both; \<open>step\<close> selects
  the file's cases. Only the second file has the call of \<^verbatim>\<open>findAndParseSQLString\<close>.
\<close>

datatype parserFile = FirstFile | SecondFile

definition step :: "parserFile \<Rightarrow> string \<Rightarrow> string \<Rightarrow> bool \<Rightarrow> parseContext \<Rightarrow> action" where
  "step f = (case f of FirstFile \<Rightarrow> step_A | SecondFile \<Rightarrow> step_B)"

definition afterSubquery ::
  "parseContext \<Rightarrow> nat \<Rightarrow> string list \<Rightarrow> string set \<Rightarrow> string set \<Rightarrow> parseContext" where
  "afterSubquery c consumed T V A =
     (if lastTableKeyword c \<noteq> ''from'' then c\<lparr>expectingTable := False\<rparr> else c)
       \<lparr>idx := idx c + (consumed + 1), expectingAlias := True, expectingCTE := False,
        tableIDSet := T, visitedSQLs := V, aliases := A\<rparr>"

definition afterDynamicSQL ::
  "parseContext \<Rightarrow> nat \<Rightarrow> string list \<Rightarrow> string set \<Rightarrow> string set \<Rightarrow> parseContext" where
  "afterDynamicSQL c n T V A =
     c\<lparr>idx := idx c + n, lastToken := ''execute immediate'',
       tableIDSet := T, visitedSQLs := V, aliases := A\<rparr>"

definition initialContext :: "string list \<Rightarrow> string set \<Rightarrow> string set \<Rightarrow> parseContext" where
  "initialContext T V A =
     \<lparr>state = stateNormal, idx = 0, expectingTable = False, expectingAlias = False,
      expectingCTE = False, lastTableKeyword = [], lastToken = [], statementVerb = [],
      tableIDSet = T, visitedSQLs = V, aliases = A\<rparr>"

type_synonym parseResult = "error + (nat \<times> string list \<times> string set \<times> string set)"

function parseSQL ::
    "parserFile \<Rightarrow> string \<Rightarrow> string \<Rightarrow> string list \<Rightarrow> string set \<Rightarrow> string set \<Rightarrow> bool \<Rightarrow> parseResult"
  and scan :: "parserFile \<Rightarrow> string \<Rightarrow> string \<Rightarrow> bool \<Rightarrow> parseContext \<Rightarrow> parseResult"
where
  "parseSQL f sql defaultProjectID T V A inSubquery =
     (if sql \<in> V then Inr (length sql, T, V, A)
      else scan f sql defaultProjectID inSubquery (initialContext T (insert sql V) A))"
| "scan f runes defaultProjectID inSubquery c =
     (if idx c < length runes then
        (case step f runes defaultProjectID inSubquery c of
           Continue c' \<Rightarrow> scan f runes defaultProjectID inSubquery c'
         | Subquery \<Rightarrow>
             (case parseSQL f (drop (idx c + 1) runes) defaultProjectID
                     (tableIDSet c) (visitedSQLs c) (aliases c) True of
                Inl e \<Rightarrow> Inl e
              | Inr (consumed, T, V, A) \<Rightarrow>
                  scan f runes defaultProjectID inSubquery (afterSubquery c consumed T V A))
         | DynamicSQL consumed \<Rightarrow>
             (case findSQLString (drop (idx c + consumed) runes) 0 of
                None \<Rightarrow>
                  scan f runes defaultProjectID inSubquery
                    (afterDynamicSQL c (consumed + length (drop (idx c + consumed) runes))
                       (tableIDSet c) (visitedSQLs c) (aliases c))
              | Some (sqlContent, sqlConsumed) \<Rightarrow>
                  (case parseSQL f sqlContent defaultProjectID
                          (tableIDSet c) (visitedSQLs c) (aliases c) False of
                     Inl e \<Rightarrow> Inl e
                   | Inr (n, T, V, A) \<Rightarrow>
                       scan f runes defaultProjectID inSubquery
                         (afterDynamicSQL c (consumed + sqlConsumed) T V A)))
         | Return n \<Rightarrow> Inr (n, tableIDSet c, visitedSQLs c, aliases c)
         | Fail e \<Rightarrow> Inl e)
      else if inSubquery then Inl UnclosedSubquery
      else Inr (length runes, tableIDSet c, visitedSQLs c, aliases c))"
  by pat_completeness auto
subsection \<open>Each iteration advances; the loop terminates\<close>

lemma hasPrefix_HasPrefix: "p \<noteq> [] \<Longrightarrow> hasPrefix runes i p = HasPrefix (drop i runes) p"
proof (cases "i + length p > length runes")
  case True
  assume "p \<noteq> []"
  then have "length p \<noteq> 0" by simp
  then have "length runes - i < length p" using True by arith
  then have "length (take (length p) (drop i runes)) \<noteq> length p" by simp
  then have "take (length p) (drop i runes) \<noteq> p" by metis
  with True show ?thesis by (simp add: hasPrefix_def HasPrefix_def)
next
  case False
  then show ?thesis by (simp add: hasPrefix_def HasPrefix_def)
qed

lemma stringStep_frame:
  "state c \<noteq> stateNormal \<Longrightarrow>
     idx c < idx (stringStep runes c) \<and> tableIDSet (stringStep runes c) = tableIDSet c
     \<and> visitedSQLs (stringStep runes c) = visitedSQLs c \<and> aliases (stringStep runes c) = aliases c"
  by (cases "state c") (simp_all add: stringStep_def Let_def)

lemma punctuation_A_frame:
  "punctuation_A runes inSubquery c = Some (Continue c') \<Longrightarrow>
     idx c < idx c' \<and> tableIDSet c' = tableIDSet c \<and> visitedSQLs c' = visitedSQLs c
     \<and> aliases c' = aliases c"
  unfolding punctuation_A_def Let_def
  by (simp split: if_splits) auto

lemma punctuation_B_frame:
  "punctuation_B runes inSubquery c = Some (Continue c') \<Longrightarrow>
     idx c < idx c' \<and> tableIDSet c' = tableIDSet c \<and> visitedSQLs c' = visitedSQLs c
     \<and> aliases c' = aliases c"
  unfolding punctuation_B_def Let_def
  by (simp split: if_splits) auto

lemma punctuation_A_no_dynamic: "punctuation_A runes inSubquery c \<noteq> Some (DynamicSQL n)"
  unfolding punctuation_A_def Let_def by simp

lemma punctuation_B_no_dynamic: "punctuation_B runes inSubquery c \<noteq> Some (DynamicSQL n)"
  unfolding punctuation_B_def Let_def by simp

lemma verbSwitch_A_frame:
  "verbSwitch_A keyword c = Inr c1 \<Longrightarrow>
     idx c1 = idx c \<and> tableIDSet c1 = tableIDSet c \<and> visitedSQLs c1 = visitedSQLs c
     \<and> aliases c1 = aliases c \<and> expectingTable c1 = expectingTable c
     \<and> expectingAlias c1 = expectingAlias c \<and> expectingCTE c1 = expectingCTE c
     \<and> lastTableKeyword c1 = lastTableKeyword c \<and> lastToken c1 = lastToken c \<and> state c1 = state c"
  unfolding verbSwitch_A_def by (auto split: if_splits)

lemma gate_A_frame:
  "gate_A parts keyword c = Inr c1 \<Longrightarrow>
     idx c1 = idx c \<and> tableIDSet c1 = tableIDSet c \<and> visitedSQLs c1 = visitedSQLs c
     \<and> aliases c1 = aliases c \<and> expectingTable c1 = expectingTable c
     \<and> expectingAlias c1 = expectingAlias c \<and> expectingCTE c1 = expectingCTE c
     \<and> lastTableKeyword c1 = lastTableKeyword c \<and> lastToken c1 = lastToken c \<and> state c1 = state c"
  unfolding gate_A_def
  by (auto split: if_splits sum.splits dest: verbSwitch_A_frame)

lemma resolveAlias_frame:
  "resolveAlias ex parts keyword fullID c = (c2, known) \<Longrightarrow>
     idx c2 = idx c \<and> tableIDSet c2 = tableIDSet c \<and> visitedSQLs c2 = visitedSQLs c
     \<and> expectingTable c2 = expectingTable c \<and> lastTableKeyword c2 = lastTableKeyword c
     \<and> lastToken c2 = lastToken c \<and> statementVerb c2 = statementVerb c \<and> state c2 = state c"
  unfolding resolveAlias_def Let_def
  by (auto split: if_splits prod.splits)

lemma collectTable_frame:
  "collectTable parts dp known c = Inr c3 \<Longrightarrow>
     idx c3 = idx c \<and> visitedSQLs c3 = visitedSQLs c \<and> aliases c3 = aliases c
     \<and> lastTableKeyword c3 = lastTableKeyword c \<and> lastToken c3 = lastToken c
     \<and> statementVerb c3 = statementVerb c \<and> expectingCTE c3 = expectingCTE c \<and> state c3 = state c"
  unfolding collectTable_def
  by (auto split: if_splits sum.splits)

lemma keywordContext_frame:
  "idx (keywordContext ex keyword c) = idx c
   \<and> tableIDSet (keywordContext ex keyword c) = tableIDSet c
   \<and> visitedSQLs (keywordContext ex keyword c) = visitedSQLs c
   \<and> aliases (keywordContext ex keyword c) = aliases c
   \<and> lastToken (keywordContext ex keyword c) = lastToken c
   \<and> state (keywordContext ex keyword c) = state c"
  unfolding keywordContext_def by simp

lemma nextLastToken_frame:
  "idx (nextLastToken keyword c) = idx c
   \<and> tableIDSet (nextLastToken keyword c) = tableIDSet c
   \<and> visitedSQLs (nextLastToken keyword c) = visitedSQLs c
   \<and> aliases (nextLastToken keyword c) = aliases c
   \<and> expectingTable (nextLastToken keyword c) = expectingTable c
   \<and> expectingAlias (nextLastToken keyword c) = expectingAlias c
   \<and> expectingCTE (nextLastToken keyword c) = expectingCTE c
   \<and> lastTableKeyword (nextLastToken keyword c) = lastTableKeyword c
   \<and> statementVerb (nextLastToken keyword c) = statementVerb c
   \<and> state (nextLastToken keyword c) = state c"
  unfolding nextLastToken_def by simp

lemma adoptVerb_frame:
  "idx (adoptVerb keyword c) = idx c
   \<and> tableIDSet (adoptVerb keyword c) = tableIDSet c
   \<and> visitedSQLs (adoptVerb keyword c) = visitedSQLs c
   \<and> aliases (adoptVerb keyword c) = aliases c
   \<and> expectingTable (adoptVerb keyword c) = expectingTable c
   \<and> expectingAlias (adoptVerb keyword c) = expectingAlias c
   \<and> expectingCTE (adoptVerb keyword c) = expectingCTE c
   \<and> lastTableKeyword (adoptVerb keyword c) = lastTableKeyword c
   \<and> lastToken (adoptVerb keyword c) = lastToken c
   \<and> state (adoptVerb keyword c) = state c"
  unfolding adoptVerb_def by simp

lemma updateKeyword_A_frame:
  "idx (updateKeyword_A parts keyword c) = idx c
   \<and> tableIDSet (updateKeyword_A parts keyword c) = tableIDSet c
   \<and> visitedSQLs (updateKeyword_A parts keyword c) = visitedSQLs c
   \<and> aliases (updateKeyword_A parts keyword c) = aliases c
   \<and> state (updateKeyword_A parts keyword c) = state c"
  unfolding updateKeyword_A_def
  by (simp add: nextLastToken_frame keywordContext_frame)

lemma updateKeyword_B_frame:
  "idx (updateKeyword_B parts keyword c) = idx c
   \<and> tableIDSet (updateKeyword_B parts keyword c) = tableIDSet c
   \<and> visitedSQLs (updateKeyword_B parts keyword c) = visitedSQLs c
   \<and> aliases (updateKeyword_B parts keyword c) = aliases c
   \<and> state (updateKeyword_B parts keyword c) = state c"
  unfolding updateKeyword_B_def
  by (simp add: adoptVerb_frame nextLastToken_frame keywordContext_frame)

text \<open>What an identifier that lets the loop go on has gone through, section by section.\<close>

lemma identifier_A_Continue:
  assumes "identifier_A runes dp c = Continue c'"
  shows "(parseIdentifierSequence_A (drop (idx c) runes) = Inr ([], 0) \<or>
          (\<exists>parts. parseIdentifierSequence_A (drop (idx c) runes) = Inr (parts, 0)))
           \<and> c' = c\<lparr>idx := idx c + 1\<rparr>
         \<or> (\<exists>p0 ps consumed c1 c2 known c3.
              parseIdentifierSequence_A (drop (idx c) runes) = Inr (p0 # ps, consumed)
              \<and> consumed \<noteq> 0
              \<and> gate_A (p0 # ps) (ToLower p0) c = Inr c1
              \<and> resolveAlias tableContextExitKeywords_A (p0 # ps) (ToLower p0)
                   (ToLower (JoinDot (p0 # ps))) c1 = (c2, known)
              \<and> collectTable (p0 # ps) dp known c2 = Inr c3
              \<and> c' = (updateKeyword_A (p0 # ps) (ToLower p0) c3)\<lparr>idx := idx c + consumed\<rparr>)"
  using assms unfolding identifier_A_def Let_def
  by (auto split: sum.splits prod.splits if_splits list.splits)

lemma identifier_B_Continue:
  assumes "identifier_B runes dp c = Continue c'"
  shows "(\<exists>parts. parseIdentifierSequence_B (drop (idx c) runes) = Inr (parts, 0))
           \<and> c' = c\<lparr>idx := idx c + 1\<rparr>
         \<or> (\<exists>p0 ps consumed c2 known c3.
              parseIdentifierSequence_B (drop (idx c) runes) = Inr (p0 # ps, consumed)
              \<and> consumed \<noteq> 0
              \<and> gate_B (ToLower p0) c = None
              \<and> resolveAlias tableContextExitKeywords_B (p0 # ps) (ToLower p0)
                   (ToLower (JoinDot (p0 # ps))) c = (c2, known)
              \<and> collectTable (p0 # ps) dp known c2 = Inr c3
              \<and> c' = (updateKeyword_B (p0 # ps) (ToLower p0) c3)\<lparr>idx := idx c + consumed\<rparr>)"
  using assms unfolding identifier_B_def Let_def
  by (auto split: sum.splits prod.splits if_splits list.splits option.splits)

lemma identifier_A_frame:
  assumes "identifier_A runes dp c = Continue c'"
  shows "idx c < idx c' \<and> visitedSQLs c' = visitedSQLs c"
  using identifier_A_Continue [OF assms]
  by (auto simp: updateKeyword_A_frame dest!: gate_A_frame resolveAlias_frame collectTable_frame)

lemma identifier_B_frame:
  assumes "identifier_B runes dp c = Continue c'"
  shows "idx c < idx c' \<and> visitedSQLs c' = visitedSQLs c"
  using identifier_B_Continue [OF assms]
  by (auto simp: updateKeyword_B_frame dest!: resolveAlias_frame collectTable_frame)

lemma identifier_A_no_dynamic: "identifier_A runes dp c \<noteq> DynamicSQL n"
  unfolding identifier_A_def Let_def
  by (auto split: sum.splits prod.splits if_splits list.splits)

lemma gate_B_immediate:
  "gate_B keyword c = None \<Longrightarrow> \<not> (lastToken c = ''execute'' \<and> keyword = ''immediate'')"
  unfolding gate_B_def by (auto split: if_splits)

lemma identifier_B_no_dynamic: "identifier_B runes dp c \<noteq> DynamicSQL n"
  unfolding identifier_B_def Let_def
  by (auto split: sum.splits prod.splits if_splits list.splits option.splits
           dest: gate_B_immediate)

lemma step_no_dynamic: "step f runes dp inSubquery c \<noteq> DynamicSQL n"
  unfolding step_def step_A_def step_B_def
  by (cases f)
     (auto split: option.splits
           simp: punctuation_A_no_dynamic punctuation_B_no_dynamic
                 identifier_A_no_dynamic identifier_B_no_dynamic)

lemma step_frame:
  assumes "step f runes dp inSubquery c = Continue c'"
  shows "idx c < idx c' \<and> visitedSQLs c' = visitedSQLs c"
proof (cases "state c = stateNormal")
  case False
  with assms have "c' = stringStep runes c"
    by (cases f) (simp_all add: step_def step_A_def step_B_def)
  with False show ?thesis using stringStep_frame [of c runes] by simp
next
  case True
  show ?thesis
  proof (cases f)
    case FirstFile
    with True assms show ?thesis
      by (auto simp: step_def step_A_def split: option.splits if_splits
               dest: punctuation_A_frame identifier_A_frame)
  next
    case SecondFile
    with True assms show ?thesis
      by (auto simp: step_def step_B_def split: option.splits if_splits
               dest: punctuation_B_frame identifier_B_frame)
  qed
qed

text \<open>
  Every call of \<^verbatim>\<open>parseSQL\<close> and every run of its loop is in the domain of the
  recursion: a subquery call gets a strictly shorter text, and within a call every
  iteration moves the index forward.
\<close>

lemma parseSQL_scan_total: "All parseSQL_scan_dom"
proof (rule "parseSQL_scan.termination" [of "measures
    [\<lambda>x. case x of Inl (f, sql, dp, T, V, A, b) \<Rightarrow> length sql | Inr (f, runes, dp, b, c) \<Rightarrow> length runes,
     \<lambda>x. case x of Inl _ \<Rightarrow> 1 | Inr _ \<Rightarrow> 0,
     \<lambda>x. case x of Inl _ \<Rightarrow> 0 | Inr (f, runes, dp, b, c) \<Rightarrow> length runes - idx c]"],
    goal_cases)
  case 1
  show ?case by simp
next
  case 2
  show ?case by simp
next
  case (3 f runes dp b c c')
  then show ?case using step_frame [of f runes dp b c c'] by auto
next
  case 4
  then show ?case by auto
next
  case 5
  then show ?case by (auto simp: afterSubquery_def)
next
  case (6 f runes dp b c n)
  then show ?case using step_no_dynamic [of f runes dp b c n] by simp
next
  case (7 f runes dp b c n)
  then show ?case using step_no_dynamic [of f runes dp b c n] by simp
next
  case (8 f runes dp b c n)
  then show ?case using step_no_dynamic [of f runes dp b c n] by simp
qed

termination parseSQL
  by (rule parseSQL_scan_total)

declare parseSQL.simps [simp del] scan.simps [simp del]
text \<open>
  \<^verbatim>\<open>TableParser\<close>: the parse with three fresh maps, then the filter that drops an ID
  one of whose dotted suffixes, lowercased, is an alias.
\<close>

definition isAliasID :: "string set \<Rightarrow> string \<Rightarrow> bool" where
  "isAliasID A ident =
     (let parts = SplitDot ident
      in list_ex (\<lambda>j. ToLower (JoinDot (drop j parts)) \<in> A) [0..<length parts])"

definition TableParser :: "parserFile \<Rightarrow> string \<Rightarrow> string \<Rightarrow> error + string list" where
  "TableParser f sql defaultProjectID =
     (case parseSQL f sql defaultProjectID [] {} {} False of
        Inl e \<Rightarrow> Inl e
      | Inr (n, T, V, A) \<Rightarrow> Inr (filter (\<lambda>ident. \<not> isAliasID A ident) T))"

section \<open>IsAnyTableExplicitlyReferenced\<close>

text \<open>
  The auditor has its own copy of the string and comment cases, each ending in the
  common \<^verbatim>\<open>i++\<close> at the foot of the loop; \<open>auditStringStep\<close> gives the state and the
  index after one of them.
\<close>

definition auditStringStep :: "string \<Rightarrow> parserState \<Rightarrow> nat \<Rightarrow> parserState \<times> nat" where
  "auditStringStep runes st i =
     (let char = runes ! i; remaining = drop i runes
      in case st of
           stateNormal \<Rightarrow> (st, i + 1)
         | stateInSingleQuoteString \<Rightarrow>
             (if char = CHR 0x5C then (st, i + 2)
              else ((if char = SQ then stateNormal else st), i + 1))
         | stateInDoubleQuoteString \<Rightarrow>
             (if char = CHR 0x5C then (st, i + 2)
              else ((if char = DQ then stateNormal else st), i + 1))
         | stateInTripleSingleQuoteString \<Rightarrow>
             (if HasPrefix remaining [SQ, SQ, SQ] then (stateNormal, i + 3) else (st, i + 1))
         | stateInTripleDoubleQuoteString \<Rightarrow>
             (if HasPrefix remaining [DQ, DQ, DQ] then (stateNormal, i + 3) else (st, i + 1))
         | stateInSingleLineCommentDash \<Rightarrow> ((if char = CHR 0x0A then stateNormal else st), i + 1)
         | stateInSingleLineCommentHash \<Rightarrow> ((if char = CHR 0x0A then stateNormal else st), i + 1)
         | stateInMultiLineComment \<Rightarrow>
             (if HasPrefix remaining ''*/'' then (stateNormal, i + 2) else (st, i + 1))
         | stateInRawSingleQuoteString \<Rightarrow> ((if char = SQ then stateNormal else st), i + 1)
         | stateInRawDoubleQuoteString \<Rightarrow> ((if char = DQ then stateNormal else st), i + 1)
         | stateInRawTripleSingleQuoteString \<Rightarrow>
             (if HasPrefix remaining [SQ, SQ, SQ] then (stateNormal, i + 3) else (st, i + 1))
         | stateInRawTripleDoubleQuoteString \<Rightarrow>
             (if HasPrefix remaining [DQ, DQ, DQ] then (stateNormal, i + 3) else (st, i + 1)))"

text \<open>"Handle various BigQuery string literal formats" in Normal state, and the
  \<^verbatim>\<open>i++\<close> that follows when no literal starts.\<close>

definition auditLiteral :: "string \<Rightarrow> nat \<Rightarrow> parserState \<times> nat" where
  "auditLiteral runes i =
     (let remaining = drop i runes; char = runes ! i; remLow = ToLower remaining
      in if HasPrefix remLow [CHR ''r'', SQ, SQ, SQ] then (stateInRawTripleSingleQuoteString, i + 4)
         else if HasPrefix remLow [CHR ''r'', DQ, DQ, DQ] then (stateInRawTripleDoubleQuoteString, i + 4)
         else if HasPrefix remLow [CHR ''r'', SQ] then (stateInRawSingleQuoteString, i + 2)
         else if HasPrefix remLow [CHR ''r'', DQ] then (stateInRawDoubleQuoteString, i + 2)
         else if HasPrefix remaining [SQ, SQ, SQ] then (stateInTripleSingleQuoteString, i + 3)
         else if HasPrefix remaining [DQ, DQ, DQ] then (stateInTripleDoubleQuoteString, i + 3)
         else if char = SQ then (stateInSingleQuoteString, i + 1)
         else if char = DQ then (stateInDoubleQuoteString, i + 1)
         else (stateNormal, i + 1))"

text \<open>
  The body of \<^verbatim>\<open>for target := range targets\<close> for one target. The loop returns true at
  the first target for which one of the tests holds, so its outcome is whether such a
  target exists, whatever the order of iteration.
\<close>

definition matchTarget_A :: "string \<Rightarrow> string \<Rightarrow> string \<Rightarrow> bool" where
  "matchTarget_A defaultProjectID fullID target =
     (fullID = target \<or> HasPrefix fullID (target @ ''.'')
      \<or> (defaultProjectID \<noteq> [] \<and>
          (let withDefault = ToLower (defaultProjectID @ ''.'' @ fullID)
           in withDefault = target \<or> HasPrefix withDefault (target @ ''.''))))"

definition matchTarget_B :: "string \<Rightarrow> string \<Rightarrow> string \<Rightarrow> bool" where
  "matchTarget_B defaultProjectID fullID target =
     (fullID = target \<or> HasPrefix fullID (target @ ''.'')
      \<or> (let cleanFullID = stripBackticks fullID; cleanTarget = stripBackticks target
          in cleanFullID = cleanTarget \<or> HasPrefix cleanFullID (cleanTarget @ ''.'')
             \<or> (defaultProjectID \<noteq> [] \<and>
                 (let cleanDefaultProjectID = stripBackticks (ToLower defaultProjectID);
                      withDefault = cleanDefaultProjectID @ ''.'' @ cleanFullID
                  in withDefault = cleanTarget \<or> HasPrefix withDefault (cleanTarget @ ''.'')))))"

datatype auditAction =
    AuditContinue parserState nat
  | AuditReturn bool
  | AuditFail error

text \<open>
  The identifier branch of the auditor; \<open>None\<close> when \<^verbatim>\<open>consumed\<close> is zero and the
  code falls through to the string literals.
\<close>

definition auditIdentifier_A :: "string \<Rightarrow> string \<Rightarrow> string list \<Rightarrow> nat \<Rightarrow> auditAction option" where
  "auditIdentifier_A runes defaultProjectID targets i =
     (case parseIdentifierSequence_A (drop i runes) of
        Inl e \<Rightarrow> Some (AuditFail e)
      | Inr (parts, consumed) \<Rightarrow>
          if consumed > 0 then
            (if length parts < 2 then Some (AuditContinue stateNormal (i + consumed))
             else (let fullID = ToLower (JoinDot parts)
                   in if list_ex (matchTarget_A defaultProjectID fullID) targets
                      then Some (AuditReturn True)
                      else Some (AuditContinue stateNormal (i + consumed))))
          else None)"

definition auditIdentifier_B :: "string \<Rightarrow> string \<Rightarrow> string list \<Rightarrow> nat \<Rightarrow> auditAction option" where
  "auditIdentifier_B runes defaultProjectID targets i =
     (case parseIdentifierSequence_B (drop i runes) of
        Inl e \<Rightarrow> Some (AuditFail e)
      | Inr (parts, consumed) \<Rightarrow>
          if consumed > 0 then
            (let fullID = ToLower (JoinDot parts)
             in if list_ex (matchTarget_B defaultProjectID fullID) targets
                then Some (AuditReturn True)
                else Some (AuditContinue stateNormal (i + consumed)))
          else None)"

definition auditStep_A :: "string \<Rightarrow> string \<Rightarrow> string list \<Rightarrow> parserState \<Rightarrow> nat \<Rightarrow> auditAction" where
  "auditStep_A runes defaultProjectID targets st i =
     (if st = stateNormal then
        (let remaining = drop i runes; char = runes ! i
         in if HasPrefix remaining ''--'' then AuditContinue stateInSingleLineCommentDash (i + 2)
            else if HasPrefix remaining ''#'' then AuditContinue stateInSingleLineCommentHash (i + 1)
            else if HasPrefix remaining ''/*'' then AuditContinue stateInMultiLineComment (i + 2)
            else (case (if isIdentStart char
                        then auditIdentifier_A runes defaultProjectID targets i else None) of
                    Some a \<Rightarrow> a
                  | None \<Rightarrow> (case auditLiteral runes i of (st', i') \<Rightarrow> AuditContinue st' i')))
      else (case auditStringStep runes st i of (st', i') \<Rightarrow> AuditContinue st' i'))"

definition auditLiteral_B :: "string \<Rightarrow> nat \<Rightarrow> parserState \<times> nat" where
  "auditLiteral_B runes i =
     (let char = runes ! i
      in if hasPrefixFold runes i [CHR ''r'', SQ, SQ, SQ] then (stateInRawTripleSingleQuoteString, i + 4)
         else if hasPrefixFold runes i [CHR ''r'', DQ, DQ, DQ] then (stateInRawTripleDoubleQuoteString, i + 4)
         else if hasPrefixFold runes i [CHR ''r'', SQ] then (stateInRawSingleQuoteString, i + 2)
         else if hasPrefixFold runes i [CHR ''r'', DQ] then (stateInRawDoubleQuoteString, i + 2)
         else if hasPrefix runes i [SQ, SQ, SQ] then (stateInTripleSingleQuoteString, i + 3)
         else if hasPrefix runes i [DQ, DQ, DQ] then (stateInTripleDoubleQuoteString, i + 3)
         else if char = SQ then (stateInSingleQuoteString, i + 1)
         else if char = DQ then (stateInDoubleQuoteString, i + 1)
         else (stateNormal, i + 1))"

definition auditStep_B :: "string \<Rightarrow> string \<Rightarrow> string list \<Rightarrow> parserState \<Rightarrow> nat \<Rightarrow> auditAction" where
  "auditStep_B runes defaultProjectID targets st i =
     (if st = stateNormal then
        (let char = runes ! i
         in if hasPrefix runes i ''--'' then AuditContinue stateInSingleLineCommentDash (i + 2)
            else if char = CHR ''#'' then AuditContinue stateInSingleLineCommentHash (i + 1)
            else if hasPrefix runes i ''/*'' then AuditContinue stateInMultiLineComment (i + 2)
            else (case (if isIdentStart char
                        then auditIdentifier_B runes defaultProjectID targets i else None) of
                    Some a \<Rightarrow> a
                  | None \<Rightarrow> (case auditLiteral_B runes i of (st', i') \<Rightarrow> AuditContinue st' i')))
      else (case auditStringStep runes st i of (st', i') \<Rightarrow> AuditContinue st' i'))"

definition auditStep ::
  "parserFile \<Rightarrow> string \<Rightarrow> string \<Rightarrow> string list \<Rightarrow> parserState \<Rightarrow> nat \<Rightarrow> auditAction" where
  "auditStep f = (case f of FirstFile \<Rightarrow> auditStep_A | SecondFile \<Rightarrow> auditStep_B)"

function auditLoop ::
  "parserFile \<Rightarrow> string \<Rightarrow> string \<Rightarrow> string list \<Rightarrow> parserState \<Rightarrow> nat \<Rightarrow> error + bool" where
  "auditLoop f runes defaultProjectID targets st i =
     (if i < length runes then
        (case auditStep f runes defaultProjectID targets st i of
           AuditContinue st' i' \<Rightarrow> auditLoop f runes defaultProjectID targets st' i'
         | AuditReturn b \<Rightarrow> Inr b
         | AuditFail e \<Rightarrow> Inl e)
      else Inr False)"
  by pat_completeness auto

lemma auditStringStep_advances: "auditStringStep runes st i = (st', i') \<Longrightarrow> i < i'"
  by (cases st) (auto simp: auditStringStep_def Let_def split: if_splits)

lemma auditLiteral_advances: "auditLiteral runes i = (st', i') \<Longrightarrow> i < i'"
  by (auto simp: auditLiteral_def Let_def split: if_splits)

lemma auditLiteral_B_advances: "auditLiteral_B runes i = (st', i') \<Longrightarrow> i < i'"
  by (auto simp: auditLiteral_B_def Let_def split: if_splits)

lemma auditIdentifier_A_advances:
  "auditIdentifier_A runes dp targets i = Some (AuditContinue st' i') \<Longrightarrow> i < i'"
  by (auto simp: auditIdentifier_A_def Let_def split: sum.splits prod.splits if_splits)

lemma auditIdentifier_B_advances:
  "auditIdentifier_B runes dp targets i = Some (AuditContinue st' i') \<Longrightarrow> i < i'"
  by (auto simp: auditIdentifier_B_def Let_def split: sum.splits prod.splits if_splits)

lemma auditStep_advances:
  assumes "auditStep f runes dp targets st i = AuditContinue st' i'"
  shows "i < i'"
proof (cases f)
  case FirstFile
  with assms show ?thesis
    by (auto simp: auditStep_def auditStep_A_def Let_def
             split: if_splits option.splits prod.splits
             dest: auditStringStep_advances auditLiteral_advances auditIdentifier_A_advances)
next
  case SecondFile
  with assms show ?thesis
    by (auto simp: auditStep_def auditStep_B_def Let_def
             split: if_splits option.splits prod.splits
             dest: auditStringStep_advances auditLiteral_B_advances auditIdentifier_B_advances)
qed

termination auditLoop
proof (relation "measure (\<lambda>(f, runes, dp, targets, st, i). length runes - i)", goal_cases)
  case 1
  show ?case by simp
next
  case (2 f runes dp targets st i st' i')
  then show ?case using auditStep_advances [of f runes dp targets st i st' i'] by auto
qed

declare auditLoop.simps [simp del]

text \<open>
  The first file returns false at once when there is no target; the second has no
  such test.
\<close>

definition IsAnyTableExplicitlyReferenced ::
  "parserFile \<Rightarrow> string \<Rightarrow> string \<Rightarrow> string list \<Rightarrow> error + bool" where
  "IsAnyTableExplicitlyReferenced f sql defaultProjectID targetTableIDs =
     (case f of
        FirstFile \<Rightarrow>
          if length targetTableIDs = 0 then Inr False
          else auditLoop f sql defaultProjectID (map ToLower targetTableIDs) stateNormal 0
      | SecondFile \<Rightarrow> auditLoop f sql defaultProjectID (map ToLower targetTableIDs) stateNormal 0)"

section \<open>ValidateQueryAgainstAllowedDatasets\<close>

text \<open>
  The part of the dry-run job the validator reads. A nil pointer is \<open>None\<close>. The
  planner call \<^verbatim>\<open>restService.Jobs.Insert(...).Do()\<close> is outside the repository: its
  outcome, an error text or a job, is an argument of the embedding (\<open>insertResponse\<close>),
  and the \<^verbatim>\<open>DatasetValidator\<close> interface is the predicate it computes.
\<close>

record tableReference =
  ProjectId :: string
  DatasetId :: string
  TableId :: string

record jobStatistics2 =
  StatementType :: string
  ReferencedTables :: "tableReference list"
  DdlTargetTable :: "tableReference option"
  DdlDestinationTable :: "tableReference option"

record jobStatistics =
  Query :: "jobStatistics2 option"

record job =
  Statistics :: "jobStatistics option"

definition DryRunQuery :: "string + job \<Rightarrow> error + job" where
  "DryRunQuery insertResponse =
     (case insertResponse of
        Inl err \<Rightarrow> Inl (DryRunInsertFailed err)
      | Inr j \<Rightarrow> Inr j)"

text \<open>\<^verbatim>\<open>fmt.Sprintf("%s.%s.%s", tableRef.ProjectId, tableRef.DatasetId, tableRef.TableId)\<close>.\<close>

definition tableRefID :: "tableReference \<Rightarrow> string" where
  "tableRefID tableRef = ProjectId tableRef @ ''.'' @ DatasetId tableRef @ ''.'' @ TableId tableRef"

text \<open>The switch on \<^verbatim>\<open>statementType\<close>: the error of a restricted statement, if any.\<close>

definition statementTypeGate :: "string \<Rightarrow> error option" where
  "statementTypeGate statementType =
     (if statementType = ''CREATE_SCHEMA'' \<or> statementType = ''DROP_SCHEMA''
         \<or> statementType = ''ALTER_SCHEMA''
      then Some (DatasetLevelStatement statementType)
      else if statementType = ''CREATE_FUNCTION'' \<or> statementType = ''CREATE_TABLE_FUNCTION''
         \<or> statementType = ''CREATE_PROCEDURE''
      then Some (StoredRoutineStatement statementType)
      else if statementType = ''CALL'' then Some (CallStatement statementType)
      else None)"

text \<open>The keys of \<^verbatim>\<open>tableIDSet\<close> after the three insertions from the query statistics.\<close>

definition plannerTables :: "jobStatistics2 \<Rightarrow> string list" where
  "plannerTables queryStats =
     (let s1 = foldl (\<lambda>s tableRef. insertKey (tableRefID tableRef) s) [] (ReferencedTables queryStats);
          s2 = (case DdlTargetTable queryStats of
                  None \<Rightarrow> s1 | Some tableRef \<Rightarrow> insertKey (tableRefID tableRef) s1);
          s3 = (case DdlDestinationTable queryStats of
                  None \<Rightarrow> s2 | Some tableRef \<Rightarrow> insertKey (tableRefID tableRef) s2)
      in s3)"

text \<open>
  The test inside both loops over table IDs: the ID splits into three parts and the
  validator refuses the first two.
\<close>

definition violates :: "(string \<Rightarrow> string \<Rightarrow> bool) \<Rightarrow> string \<Rightarrow> bool" where
  "violates IsDatasetAllowed tableID =
     (let parts = SplitDot tableID
      in length parts = 3 \<and> \<not> IsDatasetAllowed (parts ! 0) (parts ! 1))"

definition violatingTables :: "(string \<Rightarrow> string \<Rightarrow> bool) \<Rightarrow> string list \<Rightarrow> string list" where
  "violatingTables IsDatasetAllowed tableIDs = filter (violates IsDatasetAllowed) tableIDs"

text \<open>The condition of the first \<^verbatim>\<open>return dryRunJob, nil\<close>.\<close>

definition fastAllow :: "(string \<Rightarrow> string \<Rightarrow> bool) \<Rightarrow> jobStatistics2 \<Rightarrow> bool" where
  "fastAllow IsDatasetAllowed queryStats =
     (length (plannerTables queryStats) > 0
      \<and> length (violatingTables IsDatasetAllowed (plannerTables queryStats)) = 0)"

text \<open>"If violations were found, check if they are explicitly in the SQL": the error
  this block returns, if any.\<close>

definition explicitViolation :: "parserFile \<Rightarrow> string \<Rightarrow> string \<Rightarrow> string list \<Rightarrow> error option" where
  "explicitViolation f sql projectID violating =
     (if length violating > 0 then
        (case IsAnyTableExplicitlyReferenced f sql projectID violating of
           Inl err \<Rightarrow> Some (ExplicitReferenceAnalysisFailed err)
         | Inr explicitlyReferenced \<Rightarrow>
             if explicitlyReferenced
             then Some (AccessNotAllowed (JoinDot (take 2 (SplitDot (violating ! 0)))))
             else None)
      else None)"

text \<open>"Fall back to TableParser for final intent verification" to the end of the function.\<close>

fun checkParsedTables :: "(string \<Rightarrow> string \<Rightarrow> bool) \<Rightarrow> string list \<Rightarrow> error option" where
  "checkParsedTables IsDatasetAllowed [] = None"
| "checkParsedTables IsDatasetAllowed (tableID # rest) =
     (let parts = SplitDot tableID
      in if length parts = 3 \<and> \<not> IsDatasetAllowed (parts ! 0) (parts ! 1)
         then Some (AccessNotAllowed (parts ! 0 @ ''.'' @ parts ! 1))
         else checkParsedTables IsDatasetAllowed rest)"

definition fallbackParse ::
  "parserFile \<Rightarrow> string \<Rightarrow> string \<Rightarrow> (string \<Rightarrow> string \<Rightarrow> bool) \<Rightarrow> job \<Rightarrow> error + job" where
  "fallbackParse f sql projectID IsDatasetAllowed dryRunJob =
     (case TableParser f sql projectID of
        Inl parseErr \<Rightarrow> Inl (CouldNotAnalyze parseErr)
      | Inr parsedTables \<Rightarrow>
          (case checkParsedTables IsDatasetAllowed parsedTables of
             Some e \<Rightarrow> Inl e
           | None \<Rightarrow> Inr dryRunJob))"

text \<open>
  The function. \<open>f\<close> is the parser file whose \<^verbatim>\<open>TableParser\<close> and
  \<^verbatim>\<open>IsAnyTableExplicitlyReferenced\<close> the package is built with.
\<close>

definition ValidateQueryAgainstAllowedDatasets ::
  "parserFile \<Rightarrow> string + job \<Rightarrow> string \<Rightarrow> string \<Rightarrow> (string \<Rightarrow> string \<Rightarrow> bool) \<Rightarrow> error + job" where
  "ValidateQueryAgainstAllowedDatasets f insertResponse projectID sql IsDatasetAllowed =
     (case DryRunQuery insertResponse of
        Inl err \<Rightarrow> Inl (QueryValidationFailed err)
      | Inr dryRunJob \<Rightarrow>
          (case Statistics dryRunJob of
             None \<Rightarrow> Inl NoQueryStatistics
           | Some stats \<Rightarrow>
               (case Query stats of
                  None \<Rightarrow> Inl NoQueryStatistics
                | Some queryStats \<Rightarrow>
                    (case statementTypeGate (StatementType queryStats) of
                       Some e \<Rightarrow> Inl e
                     | None \<Rightarrow>
                         if fastAllow IsDatasetAllowed queryStats then Inr dryRunJob
                         else (case explicitViolation f sql projectID
                                      (violatingTables IsDatasetAllowed (plannerTables queryStats)) of
                                 Some e \<Rightarrow> Inl e
                               | None \<Rightarrow> fallbackParse f sql projectID IsDatasetAllowed dryRunJob)))))"

section \<open>Splitting and joining on dots\<close>

lemma SplitDot_nonempty: "SplitDot s \<noteq> []"
  by (induction s) (auto split: list.splits)

lemma SplitDot_nodot: "CHR ''.'' \<notin> set s \<Longrightarrow> SplitDot s = [s]"
  by (induction s) auto

lemma SplitDot_append: "SplitDot (a @ CHR ''.'' # b) = SplitDot a @ SplitDot b"
proof (induction a)
  case Nil
  show ?case by simp
next
  case (Cons c cs)
  obtain x xs where x: "SplitDot cs = x # xs"
    using SplitDot_nonempty [of cs] by (cases "SplitDot cs") auto
  with Cons show ?case by simp
qed



lemma set_insertKey: "set (insertKey k ks) = insert k (set ks)"
  by (auto simp: insertKey_def)

lemma set_foldl_insertKey:
  "set (foldl (\<lambda>s r. insertKey (g r) s) init rs) = set init \<union> g ` set rs"
  by (induction rs arbitrary: init) (auto simp: set_insertKey)

text \<open>The planner's references, in the order the validator reads them.\<close>

definition plannerReferences :: "jobStatistics2 \<Rightarrow> tableReference list" where
  "plannerReferences queryStats =
     ReferencedTables queryStats
     @ (case DdlTargetTable queryStats of None \<Rightarrow> [] | Some r \<Rightarrow> [r])
     @ (case DdlDestinationTable queryStats of None \<Rightarrow> [] | Some r \<Rightarrow> [r])"

lemma set_plannerTables: "set (plannerTables queryStats) = tableRefID ` set (plannerReferences queryStats)"
  unfolding plannerTables_def plannerReferences_def Let_def
  by (auto simp: set_insertKey set_foldl_insertKey split: option.splits)

lemma plannerTables_empty: "plannerTables queryStats = [] \<longleftrightarrow> plannerReferences queryStats = []"
  using set_plannerTables [of queryStats] by (metis image_is_empty set_empty)

definition dotFree :: "tableReference \<Rightarrow> bool" where
  "dotFree r = (CHR ''.'' \<notin> set (ProjectId r) \<and> CHR ''.'' \<notin> set (DatasetId r)
                \<and> CHR ''.'' \<notin> set (TableId r))"

lemma SplitDot_tableRefID:
  "dotFree r \<Longrightarrow> SplitDot (tableRefID r) = [ProjectId r, DatasetId r, TableId r]"
  unfolding tableRefID_def dotFree_def
  by (simp add: SplitDot_append SplitDot_nodot)

lemma violates_dotFree:
  "dotFree r \<Longrightarrow> violates allowed (tableRefID r) = (\<not> allowed (ProjectId r) (DatasetId r))"
  by (simp add: violates_def SplitDot_tableRefID)

lemma fastAllow_iff:
  "fastAllow allowed queryStats \<longleftrightarrow>
     plannerReferences queryStats \<noteq> []
     \<and> (\<forall>r \<in> set (plannerReferences queryStats). \<not> violates allowed (tableRefID r))"
proof -
  have "fastAllow allowed queryStats \<longleftrightarrow>
      plannerTables queryStats \<noteq> []
      \<and> (\<forall>t \<in> set (plannerTables queryStats). \<not> violates allowed t)"
    unfolding fastAllow_def violatingTables_def by (auto simp: filter_empty_conv)
  then show ?thesis by (simp add: set_plannerTables plannerTables_empty)
qed

lemma checkParsedTables_None:
  "checkParsedTables allowed ts = None \<longleftrightarrow> (\<forall>t \<in> set ts. \<not> violates allowed t)"
  by (induction ts) (auto simp: violates_def Let_def)

lemma fallbackParse_allows:
  "fallbackParse f sql projectID allowed j = Inr j' \<longleftrightarrow>
     j' = j \<and> (\<exists>ts. TableParser f sql projectID = Inr ts \<and> (\<forall>t \<in> set ts. \<not> violates allowed t))"
proof (cases "TableParser f sql projectID")
  case (Inl e)
  then show ?thesis by (simp add: fallbackParse_def)
next
  case (Inr ts)
  show ?thesis
  proof (cases "checkParsedTables allowed ts")
    case None
    with Inr show ?thesis
      using checkParsedTables_None [of allowed ts] by (auto simp: fallbackParse_def)
  next
    case (Some e)
    with Inr show ?thesis
      using checkParsedTables_None [of allowed ts] by (auto simp: fallbackParse_def)
  qed
qed

section \<open>The run of the state machine\<close>

definition punctuation :: "parserFile \<Rightarrow> string \<Rightarrow> bool \<Rightarrow> parseContext \<Rightarrow> action option" where
  "punctuation f = (case f of FirstFile \<Rightarrow> punctuation_A | SecondFile \<Rightarrow> punctuation_B)"

definition parseIdentifierSequence :: "parserFile \<Rightarrow> string \<Rightarrow> error + (string list \<times> nat)" where
  "parseIdentifierSequence f =
     (case f of FirstFile \<Rightarrow> parseIdentifierSequence_A | SecondFile \<Rightarrow> parseIdentifierSequence_B)"

text \<open>
  In context \<open>c\<close> the loop of \<^verbatim>\<open>parseSQL\<close> over \<open>runes\<close> is in Normal state, none of
  the tests before the identifier test leaves the iteration, the rune at \<open>idx c\<close>
  starts an identifier, and the identifier scanner returns \<open>parts\<close> after
  \<open>consumed\<close> runes (not zero): the state machine reads the identifier sequence
  \<open>parts\<close>.
\<close>

definition readsIdentifier ::
  "parserFile \<Rightarrow> string \<Rightarrow> bool \<Rightarrow> parseContext \<Rightarrow> string list \<Rightarrow> nat \<Rightarrow> bool" where
  "readsIdentifier f runes inSubquery c parts consumed =
     (idx c < length runes \<and> state c = stateNormal
      \<and> punctuation f runes inSubquery c = None
      \<and> isIdentStart (runes ! idx c)
      \<and> parseIdentifierSequence f (drop (idx c) runes) = Inr (parts, consumed)
      \<and> consumed \<noteq> 0)"

text \<open>The context after \<open>n\<close> iterations that stay in the same call of \<^verbatim>\<open>parseSQL\<close>.\<close>

fun advance ::
  "parserFile \<Rightarrow> string \<Rightarrow> string \<Rightarrow> bool \<Rightarrow> nat \<Rightarrow> parseContext \<Rightarrow> parseContext option" where
  "advance f runes dp inSubquery 0 c = Some c"
| "advance f runes dp inSubquery (Suc n) c =
     (if idx c < length runes then
        (case step f runes dp inSubquery c of
           Continue c' \<Rightarrow> advance f runes dp inSubquery n c'
         | _ \<Rightarrow> None)
      else None)"

text \<open>
  The contexts a run of \<^verbatim>\<open>TableParser(sql, dp)\<close> passes through, each with the text and
  the \<^verbatim>\<open>inSubquery\<close> flag of the \<^verbatim>\<open>parseSQL\<close> call it belongs to: the first context
  of the outer call; the next context of an iteration that goes on; the first context of
  a subquery call on text not yet visited; the context in which the caller goes on after
  a subquery call has returned.
\<close>

inductive reaches ::
  "parserFile \<Rightarrow> string \<Rightarrow> string \<Rightarrow> string \<Rightarrow> bool \<Rightarrow> parseContext \<Rightarrow> bool"
  for f :: parserFile and sql :: string and dp :: string
where
  start: "reaches f sql dp sql False (initialContext [] {sql} {})"
| continue:
    "\<lbrakk>reaches f sql dp runes b c; idx c < length runes; step f runes dp b c = Continue c'\<rbrakk>
     \<Longrightarrow> reaches f sql dp runes b c'"
| descend:
    "\<lbrakk>reaches f sql dp runes b c; idx c < length runes; step f runes dp b c = Subquery;
      drop (idx c + 1) runes \<notin> visitedSQLs c\<rbrakk>
     \<Longrightarrow> reaches f sql dp (drop (idx c + 1) runes) True
           (initialContext (tableIDSet c) (insert (drop (idx c + 1) runes) (visitedSQLs c))
              (aliases c))"
| resume:
    "\<lbrakk>reaches f sql dp runes b c; idx c < length runes; step f runes dp b c = Subquery;
      parseSQL f (drop (idx c + 1) runes) dp (tableIDSet c) (visitedSQLs c) (aliases c) True
        = Inr (consumed, T, V, A)\<rbrakk>
     \<Longrightarrow> reaches f sql dp runes b (afterSubquery c consumed T V A)"

lemma parseSQL_visited: "sql \<in> V \<Longrightarrow> parseSQL f sql dp T V A b = Inr (length sql, T, V, A)"
  by (simp add: parseSQL.simps)

lemma parseSQL_fresh:
  "sql \<notin> V \<Longrightarrow> parseSQL f sql dp T V A b = scan f sql dp b (initialContext T (insert sql V) A)"
  by (simp add: parseSQL.simps)

lemma scan_Continue:
  "idx c < length runes \<Longrightarrow> step f runes dp b c = Continue c' \<Longrightarrow>
     scan f runes dp b c = scan f runes dp b c'"
  by (subst scan.simps) simp

lemma scan_Fail:
  "idx c < length runes \<Longrightarrow> step f runes dp b c = Fail e \<Longrightarrow> scan f runes dp b c = Inl e"
  by (subst scan.simps) simp

lemma scan_Return:
  "idx c < length runes \<Longrightarrow> step f runes dp b c = Return n \<Longrightarrow>
     scan f runes dp b c = Inr (n, tableIDSet c, visitedSQLs c, aliases c)"
  by (subst scan.simps) simp

lemma scan_Subquery_Inl:
  "idx c < length runes \<Longrightarrow> step f runes dp b c = Subquery \<Longrightarrow>
     parseSQL f (drop (idx c + 1) runes) dp (tableIDSet c) (visitedSQLs c) (aliases c) True = Inl e \<Longrightarrow>
     scan f runes dp b c = Inl e"
  by (subst scan.simps) simp

lemma scan_Subquery_Inr:
  "idx c < length runes \<Longrightarrow> step f runes dp b c = Subquery \<Longrightarrow>
     parseSQL f (drop (idx c + 1) runes) dp (tableIDSet c) (visitedSQLs c) (aliases c) True
       = Inr (consumed, T, V, A) \<Longrightarrow>
     scan f runes dp b c = scan f runes dp b (afterSubquery c consumed T V A)"
  by (subst scan.simps) simp

lemma scan_end:
  "\<not> idx c < length runes \<Longrightarrow>
     scan f runes dp b c =
       (if b then Inl UnclosedSubquery else Inr (length runes, tableIDSet c, visitedSQLs c, aliases c))"
  by (subst scan.simps) simp

text \<open>An error of the loop in a context of the run is the error of \<^verbatim>\<open>TableParser\<close>.\<close>

lemma error_propagates:
  "reaches f sql dp runes b c \<Longrightarrow> scan f runes dp b c = Inl e \<Longrightarrow> TableParser f sql dp = Inl e"
proof (induction rule: reaches.induct)
  case start
  then show ?case by (simp add: TableParser_def parseSQL_fresh)
next
  case (continue runes b c c')
  then show ?case by (simp add: scan_Continue)
next
  case (descend runes b c)
  from descend.hyps(4) descend.prems
  have "parseSQL f (drop (idx c + 1) runes) dp (tableIDSet c) (visitedSQLs c) (aliases c) True = Inl e"
    by (simp add: parseSQL_fresh)
  with descend.hyps(2,3) have "scan f runes dp b c = Inl e" by (rule scan_Subquery_Inl)
  then show ?case by (rule descend.IH)
next
  case (resume runes b c consumed T V A)
  then show ?case by (simp add: scan_Subquery_Inr)
qed

lemma reaches_advance:
  "reaches f sql dp runes b c \<Longrightarrow> advance f runes dp b n c = Some c' \<Longrightarrow>
     reaches f sql dp runes b c'"
proof (induction n arbitrary: c)
  case 0
  then show ?case by simp
next
  case (Suc n)
  from Suc.prems(2) obtain c1 where lt: "idx c < length runes"
    and st: "step f runes dp b c = Continue c1" and rest: "advance f runes dp b n c1 = Some c'"
    by (auto split: if_splits action.splits)
  from Suc.prems(1) lt st have "reaches f sql dp runes b c1" by (rule reaches.continue)
  then show ?case using rest by (rule Suc.IH)
qed

lemma step_reads_A:
  "readsIdentifier FirstFile runes b c parts consumed \<Longrightarrow>
     step FirstFile runes dp b c = identifier_A runes dp c"
  by (simp add: readsIdentifier_def step_def step_A_def punctuation_def)

lemma step_reads_B:
  "readsIdentifier SecondFile runes b c parts consumed \<Longrightarrow>
     step SecondFile runes dp b c = identifier_B runes dp c"
  by (simp add: readsIdentifier_def step_def step_B_def punctuation_def)

lemma reads_parse_A:
  "readsIdentifier FirstFile runes b c parts consumed \<Longrightarrow>
     parseIdentifierSequence_A (drop (idx c) runes) = Inr (parts, consumed) \<and> consumed \<noteq> 0"
  by (simp add: readsIdentifier_def parseIdentifierSequence_def)

lemma reads_parse_B:
  "readsIdentifier SecondFile runes b c parts consumed \<Longrightarrow>
     parseIdentifierSequence_B (drop (idx c) runes) = Inr (parts, consumed) \<and> consumed \<noteq> 0"
  by (simp add: readsIdentifier_def parseIdentifierSequence_def)

lemma immediate_Fail_A:
  assumes "readsIdentifier FirstFile runes b c [p] consumed"
    and "ToLower p = ''immediate''" and "lastToken c = ''execute''"
  shows "step FirstFile runes dp b c = Fail ExecuteImmediateNotAllowed"
  using assms reads_parse_A [OF assms(1)]
  by (simp add: step_reads_A [OF assms(1)] identifier_A_def gate_A_def verbSwitch_A_def)

lemma immediate_Fail_B:
  assumes "readsIdentifier SecondFile runes b c (p # ps) consumed"
    and "ToLower p = ''immediate''" and "lastToken c = ''execute''"
  shows "step SecondFile runes dp b c = Fail ExecuteImmediateNotAllowedShort"
  using assms reads_parse_B [OF assms(1)]
  by (simp add: step_reads_B [OF assms(1)] identifier_B_def gate_B_def)

section \<open>What the identifier dispatch does\<close>

lemma dispatch_A:
  assumes "readsIdentifier FirstFile runes b c (p0 # ps) consumed"
  shows "step FirstFile runes dp b c =
     (case gate_A (p0 # ps) (ToLower p0) c of
        Inl e \<Rightarrow> Fail e
      | Inr c1 \<Rightarrow>
          (case resolveAlias tableContextExitKeywords_A (p0 # ps) (ToLower p0)
                  (ToLower (JoinDot (p0 # ps))) c1 of
             (c2, known) \<Rightarrow>
               (case collectTable (p0 # ps) dp known c2 of
                  Inl e \<Rightarrow> Fail e
                | Inr c3 \<Rightarrow>
                    Continue ((updateKeyword_A (p0 # ps) (ToLower p0) c3)
                                \<lparr>idx := idx c + consumed\<rparr>))))"
  using reads_parse_A [OF assms]
  by (simp add: step_reads_A [OF assms] identifier_A_def Let_def)

lemma dispatch_B:
  assumes "readsIdentifier SecondFile runes b c (p0 # ps) consumed"
  shows "step SecondFile runes dp b c =
     (case gate_B (ToLower p0) c of
        Some e \<Rightarrow> Fail e
      | None \<Rightarrow>
          (case resolveAlias tableContextExitKeywords_B (p0 # ps) (ToLower p0)
                  (ToLower (JoinDot (p0 # ps))) c of
             (c2, known) \<Rightarrow>
               (case collectTable (p0 # ps) dp known c2 of
                  Inl e \<Rightarrow> Fail e
                | Inr c3 \<Rightarrow>
                    Continue ((updateKeyword_B (p0 # ps) (ToLower p0) c3)
                                \<lparr>idx := idx c + consumed\<rparr>))))"
  using reads_parse_B [OF assms]
  by (auto simp: step_reads_B [OF assms] identifier_B_def Let_def split: option.splits
           dest: gate_B_immediate)

text \<open>
  The identifier sequence \<open>parts\<close> read in context \<open>c\<close> arrives at the block
  \<^verbatim>\<open>if expectingTable && !isKnownAlias\<close> and enters it: the security checks of the file
  return no error, a table is expected and the sequence is not a known alias.
\<close>

definition inTablePosition :: "parserFile \<Rightarrow> string list \<Rightarrow> parseContext \<Rightarrow> bool" where
  "inTablePosition f parts c =
     (case parts of
        [] \<Rightarrow> False
      | p0 # _ \<Rightarrow>
          (case f of
             FirstFile \<Rightarrow>
               (case gate_A parts (ToLower p0) c of
                  Inl e \<Rightarrow> False
                | Inr c1 \<Rightarrow>
                    (case resolveAlias tableContextExitKeywords_A parts (ToLower p0)
                            (ToLower (JoinDot parts)) c1 of
                       (c2, known) \<Rightarrow> expectingTable c2 \<and> \<not> known))
           | SecondFile \<Rightarrow>
               (case gate_B (ToLower p0) c of
                  Some e \<Rightarrow> False
                | None \<Rightarrow>
                    (case resolveAlias tableContextExitKeywords_B parts (ToLower p0)
                            (ToLower (JoinDot parts)) c of
                       (c2, known) \<Rightarrow> expectingTable c2 \<and> \<not> known))))"

text \<open>The step of an identifier in table position is what \<open>collectTable\<close> makes of it.\<close>

lemma table_position_step:
  assumes "readsIdentifier f runes b c parts consumed" and "inTablePosition f parts c"
  shows "\<exists>c2. expectingTable c2 \<and> tableIDSet c2 = tableIDSet c
           \<and> (\<forall>e. collectTable parts dp False c2 = Inl e \<longrightarrow> step f runes dp b c = Fail e)
           \<and> (\<forall>c3. collectTable parts dp False c2 = Inr c3 \<longrightarrow>
                 (\<exists>c'. step f runes dp b c = Continue c' \<and> tableIDSet c' = tableIDSet c3))"
proof -
  from assms(2) obtain p0 ps where parts: "parts = p0 # ps"
    by (cases parts) (auto simp: inTablePosition_def)
  show ?thesis
  proof (cases f)
    case FirstFile
    from assms(2) FirstFile parts obtain c1 c2 where
      g: "gate_A (p0 # ps) (ToLower p0) c = Inr c1"
      and r: "resolveAlias tableContextExitKeywords_A (p0 # ps) (ToLower p0)
                (ToLower (JoinDot (p0 # ps))) c1 = (c2, False)"
      and e: "expectingTable c2"
      by (auto simp: inTablePosition_def split: sum.splits prod.splits)
    from gate_A_frame [OF g] resolveAlias_frame [OF r]
    have t: "tableIDSet c2 = tableIDSet c" by simp
    from assms(1) FirstFile parts
    have "readsIdentifier FirstFile runes b c (p0 # ps) consumed" by simp
    from dispatch_A [OF this, of dp] g r
    have "step FirstFile runes dp b c =
        (case collectTable (p0 # ps) dp False c2 of
           Inl e \<Rightarrow> Fail e
         | Inr c3 \<Rightarrow> Continue ((updateKeyword_A (p0 # ps) (ToLower p0) c3)
                                  \<lparr>idx := idx c + consumed\<rparr>))"
      by simp
    with e t FirstFile parts show ?thesis
      by (intro exI [of _ c2]) (auto simp: updateKeyword_A_frame)
  next
    case SecondFile
    from assms(2) SecondFile parts obtain c2 where
      g: "gate_B (ToLower p0) c = None"
      and r: "resolveAlias tableContextExitKeywords_B (p0 # ps) (ToLower p0)
                (ToLower (JoinDot (p0 # ps))) c = (c2, False)"
      and e: "expectingTable c2"
      by (auto simp: inTablePosition_def split: option.splits prod.splits)
    from resolveAlias_frame [OF r]
    have t: "tableIDSet c2 = tableIDSet c" by simp
    from assms(1) SecondFile parts
    have "readsIdentifier SecondFile runes b c (p0 # ps) consumed" by simp
    from dispatch_B [OF this, of dp] g r
    have "step SecondFile runes dp b c =
        (case collectTable (p0 # ps) dp False c2 of
           Inl e \<Rightarrow> Fail e
         | Inr c3 \<Rightarrow> Continue ((updateKeyword_B (p0 # ps) (ToLower p0) c3)
                                  \<lparr>idx := idx c + consumed\<rparr>))"
      by simp
    with e t SecondFile parts show ?thesis
      by (intro exI [of _ c2]) (auto simp: updateKeyword_B_frame)
  qed
qed

lemma collectTable_two_no_default:
  "expectingTable c \<Longrightarrow> collectTable [d, t] [] False c = Inl (MissingProject (d @ ''.'' @ t))"
  by (simp add: collectTable_def formatTableID_def)

lemma collectTable_two_default:
  "expectingTable c \<Longrightarrow> dp \<noteq> [] \<Longrightarrow>
     \<exists>c3. collectTable [d, t] dp False c = Inr c3
          \<and> tableIDSet c3 = insertKey (dp @ ''.'' @ d @ ''.'' @ t) (tableIDSet c)"
  by (simp add: collectTable_def formatTableID_def)

lemma collectTable_four:
  "4 \<le> length parts \<Longrightarrow>
     \<exists>c3. collectTable parts dp known c = Inr c3 \<and> tableIDSet c3 = tableIDSet c"
  by (simp add: collectTable_def formatTableID_def)

section \<open>Keywords in the second file\<close>

lemma keywordContext_statementVerb:
  "keyword \<noteq> ''with'' \<Longrightarrow> statementVerb (keywordContext ex keyword c) = statementVerb c"
  by (simp add: keywordContext_def)

lemma collectTable_single:
  "\<exists>c3. collectTable [p] dp known c = Inr c3 \<and> statementVerb c3 = statementVerb c"
  by (simp add: collectTable_def)

text \<open>
  Second file: a single-part identifier that is one of the eight statement verbs, read
  while \<^verbatim>\<open>statementVerb\<close> is empty or \<open>''with''\<close>, becomes the statement verb.
\<close>

lemma statementVerbs_not_with: "kw \<in> set statementVerbs \<Longrightarrow> kw \<noteq> ''with''"
  unfolding statementVerbs_def
  by (simp only: list.set insert_iff empty_iff) (elim disjE FalseE; simp)

lemma gate_B_statementVerbs: "kw \<in> set statementVerbs \<Longrightarrow> gate_B kw c = None"
  unfolding statementVerbs_def
  by (simp only: list.set insert_iff empty_iff) (elim disjE FalseE; simp add: gate_B_def)

lemma adoptVerb_adopts:
  "kw \<in> set statementVerbs \<Longrightarrow> statementVerb c = [] \<or> statementVerb c = ''with'' \<Longrightarrow>
     statementVerb (adoptVerb kw c) = kw"
  unfolding statementVerbs_def
  by (simp only: list.set insert_iff empty_iff) (elim disjE FalseE; simp add: adoptVerb_def)

lemma verb_adopted_B:
  assumes "readsIdentifier SecondFile runes b c [p] consumed"
    and "ToLower p \<in> set statementVerbs"
    and "statementVerb c = [] \<or> statementVerb c = ''with''"
  shows "\<exists>c'. step SecondFile runes dp b c = Continue c' \<and> statementVerb c' = ToLower p"
proof -
  from assms(2) have kw: "ToLower p \<noteq> ''with''" "gate_B (ToLower p) c = None"
    by (simp_all add: statementVerbs_not_with gate_B_statementVerbs)
  obtain c2 known where r: "resolveAlias tableContextExitKeywords_B [p] (ToLower p)
      (ToLower (JoinDot [p])) c = (c2, known)"
    by (cases "resolveAlias tableContextExitKeywords_B [p] (ToLower p) (ToLower (JoinDot [p])) c")
  obtain c3 where c3: "collectTable [p] dp known c2 = Inr c3" "statementVerb c3 = statementVerb c2"
    using collectTable_single [of p dp known c2] by blast
  from resolveAlias_frame [OF r] c3 have v: "statementVerb c3 = statementVerb c" by simp
  let ?c4 = "nextLastToken (ToLower p) (keywordContext tableContextExitKeywords_B (ToLower p) c3)"
  from v kw(1) have "statementVerb ?c4 = statementVerb c"
    by (simp add: nextLastToken_frame keywordContext_statementVerb)
  with assms(3) have "statementVerb ?c4 = [] \<or> statementVerb ?c4 = ''with''" by simp
  with assms(2) have "statementVerb (adoptVerb (ToLower p) ?c4) = ToLower p"
    by (rule adoptVerb_adopts)
  then have u: "statementVerb (updateKeyword_B [p] (ToLower p) c3) = ToLower p"
    by (simp add: updateKeyword_B_def)
  from dispatch_B [OF assms(1), of dp] kw(2) r c3(1)
  have "step SecondFile runes dp b c
      = Continue ((updateKeyword_B [p] (ToLower p) c3)\<lparr>idx := idx c + consumed\<rparr>)"
    by simp
  with u show ?thesis by simp
qed

text \<open>
  Second file: a single-part identifier that is one of the twelve context-exit keywords
  clears \<^verbatim>\<open>expectingTable\<close>, \<^verbatim>\<open>lastTableKeyword\<close> and \<^verbatim>\<open>expectingAlias\<close>.
\<close>

lemma gate_B_exit: "kw \<in> set tableContextExitKeywords_B \<Longrightarrow> gate_B kw c = None"
  unfolding tableContextExitKeywords_B_def
  by (simp only: list.set insert_iff empty_iff) (elim disjE FalseE; simp add: gate_B_def)

lemma keywordContext_exit_B:
  "kw \<in> set tableContextExitKeywords_B \<Longrightarrow>
     \<not> expectingTable (keywordContext tableContextExitKeywords_B kw c)
     \<and> lastTableKeyword (keywordContext tableContextExitKeywords_B kw c) = []
     \<and> \<not> expectingAlias (keywordContext tableContextExitKeywords_B kw c)"
  unfolding tableContextExitKeywords_B_def
  by (simp only: list.set insert_iff empty_iff)
     (elim disjE FalseE; simp add: keywordContext_def tableFollowsKeywords_def)

lemma exit_keyword_clears_B:
  assumes "readsIdentifier SecondFile runes b c [p] consumed"
    and "ToLower p \<in> set tableContextExitKeywords_B"
  shows "\<exists>c'. step SecondFile runes dp b c = Continue c'
           \<and> \<not> expectingTable c' \<and> lastTableKeyword c' = [] \<and> \<not> expectingAlias c'"
proof -
  from assms(2) have kw: "gate_B (ToLower p) c = None" by (rule gate_B_exit)
  obtain c2 known where r: "resolveAlias tableContextExitKeywords_B [p] (ToLower p)
      (ToLower (JoinDot [p])) c = (c2, known)"
    by (cases "resolveAlias tableContextExitKeywords_B [p] (ToLower p) (ToLower (JoinDot [p])) c")
  obtain c3 where c3: "collectTable [p] dp known c2 = Inr c3"
    using collectTable_single [of p dp known c2] by blast
  from keywordContext_exit_B [OF assms(2), of c3]
  have u: "\<not> expectingTable (updateKeyword_B [p] (ToLower p) c3)
      \<and> lastTableKeyword (updateKeyword_B [p] (ToLower p) c3) = []
      \<and> \<not> expectingAlias (updateKeyword_B [p] (ToLower p) c3)"
    by (simp add: updateKeyword_B_def adoptVerb_frame nextLastToken_frame)
  from dispatch_B [OF assms(1), of dp] kw r c3
  have "step SecondFile runes dp b c
      = Continue ((updateKeyword_B [p] (ToLower p) c3)\<lparr>idx := idx c + consumed\<rparr>)"
    by simp
  with u show ?thesis by simp
qed

section \<open>What a parse adds to the table-ID set and to the visited set\<close>

text \<open>
  The IDs a parse of \<open>runes\<close> can insert: the non-empty results of \<^verbatim>\<open>formatTableID\<close> on
  an identifier sequence the scanner reads at some index of \<open>runes\<close>.
\<close>

definition emitted :: "parserFile \<Rightarrow> string \<Rightarrow> string \<Rightarrow> string set" where
  "emitted f dp runes =
     {t. \<exists>i parts n. parseIdentifierSequence f (drop i runes) = Inr (parts, n)
                      \<and> formatTableID parts dp = Inr t \<and> t \<noteq> []}"

lemma emitted_drop: "emitted f dp (drop k runes) \<subseteq> emitted f dp runes"
  unfolding emitted_def by auto

lemma collectTable_tableIDSet:
  "collectTable parts dp known c = Inr c3 \<Longrightarrow>
     set (tableIDSet c3) \<subseteq> set (tableIDSet c) \<union> {t. formatTableID parts dp = Inr t \<and> t \<noteq> []}"
  unfolding collectTable_def
  by (auto split: if_splits sum.splits simp: set_insertKey)

lemma identifier_A_tableIDSet:
  assumes "identifier_A runes dp c = Continue c'"
  shows "set (tableIDSet c') \<subseteq> set (tableIDSet c) \<union> emitted FirstFile dp runes"
proof -
  from identifier_A_Continue [OF assms]
  consider "c' = c\<lparr>idx := idx c + 1\<rparr>"
    | p0 ps consumed c1 c2 known c3 where
      "parseIdentifierSequence_A (drop (idx c) runes) = Inr (p0 # ps, consumed)"
      "gate_A (p0 # ps) (ToLower p0) c = Inr c1"
      "resolveAlias tableContextExitKeywords_A (p0 # ps) (ToLower p0)
         (ToLower (JoinDot (p0 # ps))) c1 = (c2, known)"
      "collectTable (p0 # ps) dp known c2 = Inr c3"
      "c' = (updateKeyword_A (p0 # ps) (ToLower p0) c3)\<lparr>idx := idx c + consumed\<rparr>"
    by blast
  then show ?thesis
  proof cases
    case 1
    then show ?thesis by simp
  next
    case 2
    from 2(2,3) have "tableIDSet c2 = tableIDSet c"
      using gate_A_frame resolveAlias_frame by metis
    moreover from 2(1) have "{t. formatTableID (p0 # ps) dp = Inr t \<and> t \<noteq> []}
        \<subseteq> emitted FirstFile dp runes"
      unfolding emitted_def parseIdentifierSequence_def by auto
    ultimately show ?thesis
      using collectTable_tableIDSet [OF 2(4)] 2(5) by (auto simp: updateKeyword_A_frame)
  qed
qed

lemma identifier_B_tableIDSet:
  assumes "identifier_B runes dp c = Continue c'"
  shows "set (tableIDSet c') \<subseteq> set (tableIDSet c) \<union> emitted SecondFile dp runes"
proof -
  from identifier_B_Continue [OF assms]
  consider "c' = c\<lparr>idx := idx c + 1\<rparr>"
    | p0 ps consumed c2 known c3 where
      "parseIdentifierSequence_B (drop (idx c) runes) = Inr (p0 # ps, consumed)"
      "resolveAlias tableContextExitKeywords_B (p0 # ps) (ToLower p0)
         (ToLower (JoinDot (p0 # ps))) c = (c2, known)"
      "collectTable (p0 # ps) dp known c2 = Inr c3"
      "c' = (updateKeyword_B (p0 # ps) (ToLower p0) c3)\<lparr>idx := idx c + consumed\<rparr>"
    by blast
  then show ?thesis
  proof cases
    case 1
    then show ?thesis by simp
  next
    case 2
    from 2(2) have "tableIDSet c2 = tableIDSet c"
      using resolveAlias_frame by metis
    moreover from 2(1) have "{t. formatTableID (p0 # ps) dp = Inr t \<and> t \<noteq> []}
        \<subseteq> emitted SecondFile dp runes"
      unfolding emitted_def parseIdentifierSequence_def by auto
    ultimately show ?thesis
      using collectTable_tableIDSet [OF 2(3)] 2(4) by (auto simp: updateKeyword_B_frame)
  qed
qed

lemma step_tableIDSet:
  assumes "step f runes dp b c = Continue c'"
  shows "set (tableIDSet c') \<subseteq> set (tableIDSet c) \<union> emitted f dp runes"
proof (cases "state c = stateNormal")
  case False
  with assms have "c' = stringStep runes c"
    by (cases f) (simp_all add: step_def step_A_def step_B_def)
  with False show ?thesis using stringStep_frame [of c runes] by simp
next
  case True
  show ?thesis
  proof (cases f)
    case FirstFile
    with True assms show ?thesis
      using punctuation_A_frame [of runes b c c'] identifier_A_tableIDSet [of runes dp c c']
      by (auto simp: step_def step_A_def split: option.splits if_splits)
  next
    case SecondFile
    with True assms show ?thesis
      using punctuation_B_frame [of runes b c c'] identifier_B_tableIDSet [of runes dp c c']
      by (auto simp: step_def step_B_def split: option.splits if_splits)
  qed
qed

text \<open>
  A parse that succeeds returns a table-ID set that holds, beyond what it was given,
  only IDs of \<open>emitted\<close>; and a visited set that holds what it was given and the text
  parsed.
\<close>

lemma parseSQL_scan_result:
  shows "parseSQL f sql dp T V A b = Inr (n, T', V', A') \<Longrightarrow>
           set T' \<subseteq> set T \<union> emitted f dp sql \<and> insert sql V \<subseteq> V'"
    and "scan f runes dp b c = Inr (n, T', V', A') \<Longrightarrow>
           set T' \<subseteq> set (tableIDSet c) \<union> emitted f dp runes \<and> visitedSQLs c \<subseteq> V'"
proof (induction f sql dp T V A b and f runes dp b c arbitrary: n T' V' A' and n T' V' A'
       rule: parseSQL_scan.induct)
  case (1 f sql dp T V A b)
  show ?case
  proof (cases "sql \<in> V")
    case True
    with "1.prems" show ?thesis by (auto simp: parseSQL_visited)
  next
    case False
    with "1.prems" have "scan f sql dp b (initialContext T (insert sql V) A) = Inr (n, T', V', A')"
      by (simp add: parseSQL_fresh)
    from "1.IH" [OF False this] show ?thesis by (simp add: initialContext_def)
  qed
next
  case (2 f runes dp b c)
  show ?case
  proof (cases "idx c < length runes")
    case False
    with "2.prems" show ?thesis by (auto simp: scan_end split: if_splits)
  next
    case lt: True
    show ?thesis
    proof (cases "step f runes dp b c")
      case (Continue c')
      with lt "2.prems" have "scan f runes dp b c' = Inr (n, T', V', A')"
        by (simp add: scan_Continue)
      from "2.IH"(1) [OF lt Continue this] step_tableIDSet [OF Continue] step_frame [OF Continue]
      show ?thesis by auto
    next
      case Subquery
      show ?thesis
      proof (cases "parseSQL f (drop (idx c + 1) runes) dp (tableIDSet c) (visitedSQLs c) (aliases c) True")
        case (Inl e)
        with lt Subquery "2.prems" show ?thesis by (simp add: scan_Subquery_Inl)
      next
        case (Inr r)
        obtain m T1 V1 A1 where r: "r = (m, T1, V1, A1)" by (cases r) auto
        with Inr have sub: "parseSQL f (drop (idx c + 1) runes) dp (tableIDSet c) (visitedSQLs c)
            (aliases c) True = Inr (m, T1, V1, A1)" by simp
        from "2.IH"(2) [OF lt Subquery sub]
        have a: "set T1 \<subseteq> set (tableIDSet c) \<union> emitted f dp (drop (idx c + 1) runes)"
          and v: "visitedSQLs c \<subseteq> V1" by auto
        from lt Subquery sub "2.prems"
        have "scan f runes dp b (afterSubquery c m T1 V1 A1) = Inr (n, T', V', A')"
          by (simp add: scan_Subquery_Inr)
        from "2.IH"(3) [OF lt Subquery sub refl refl refl this]
        have "set T' \<subseteq> set T1 \<union> emitted f dp runes" and "V1 \<subseteq> V'"
          by (auto simp: afterSubquery_def)
        with a v emitted_drop [of f dp "idx c + 1" runes] show ?thesis by auto
      qed
    next
      case (DynamicSQL k)
      then show ?thesis using step_no_dynamic [of f runes dp b c k] by simp
    next
      case (Return k)
      with lt "2.prems" show ?thesis by (auto simp: scan_Return)
    next
      case (Fail e)
      with lt "2.prems" show ?thesis by (simp add: scan_Fail)
    qed
  qed
qed


section \<open>The parts the identifier scanner returns\<close>






section \<open>The shape of the returned IDs\<close>




section \<open>What the auditor reads and matches\<close>
















section \<open>Backtick-quoted stretches of the text\<close>










section \<open>The text being parsed is in the visited set\<close>

lemma reaches_visited:
  "reaches f sql dp runes b c \<Longrightarrow> runes \<in> visitedSQLs c \<and> sql \<in> visitedSQLs c"
proof (induction rule: reaches.induct)
  case start
  show ?case by (simp add: initialContext_def)
next
  case (continue runes b c c')
  then show ?case using step_frame [of f runes dp b c c'] by simp
next
  case (descend runes b c)
  then show ?case by (simp add: initialContext_def)
next
  case (resume runes b c consumed T V A)
  from parseSQL_scan_result(1) [OF resume.hyps(4)] have "visitedSQLs c \<subseteq> V" by simp
  with resume.IH show ?case by (auto simp: afterSubquery_def)
qed


section \<open>A collected table stays in the table-ID set\<close>

lemma collectTable_keeps:
  "collectTable parts dp known c = Inr c3 \<Longrightarrow> set (tableIDSet c) \<subseteq> set (tableIDSet c3)"
  unfolding collectTable_def
  by (auto split: if_splits sum.splits simp: set_insertKey)

lemma identifier_A_keeps:
  assumes "identifier_A runes dp c = Continue c'"
  shows "set (tableIDSet c) \<subseteq> set (tableIDSet c')"
proof -
  from identifier_A_Continue [OF assms]
  consider "c' = c\<lparr>idx := idx c + 1\<rparr>"
    | p0 ps consumed c1 c2 known c3 where
      "gate_A (p0 # ps) (ToLower p0) c = Inr c1"
      "resolveAlias tableContextExitKeywords_A (p0 # ps) (ToLower p0)
         (ToLower (JoinDot (p0 # ps))) c1 = (c2, known)"
      "collectTable (p0 # ps) dp known c2 = Inr c3"
      "c' = (updateKeyword_A (p0 # ps) (ToLower p0) c3)\<lparr>idx := idx c + consumed\<rparr>"
    by blast
  then show ?thesis
  proof cases
    case 1
    then show ?thesis by simp
  next
    case 2
    from 2(1,2) have "tableIDSet c2 = tableIDSet c"
      using gate_A_frame resolveAlias_frame by metis
    with collectTable_keeps [OF 2(3)] 2(4) show ?thesis
      by (simp add: updateKeyword_A_frame)
  qed
qed

lemma identifier_B_keeps:
  assumes "identifier_B runes dp c = Continue c'"
  shows "set (tableIDSet c) \<subseteq> set (tableIDSet c')"
proof -
  from identifier_B_Continue [OF assms]
  consider "c' = c\<lparr>idx := idx c + 1\<rparr>"
    | p0 ps consumed c2 known c3 where
      "resolveAlias tableContextExitKeywords_B (p0 # ps) (ToLower p0)
         (ToLower (JoinDot (p0 # ps))) c = (c2, known)"
      "collectTable (p0 # ps) dp known c2 = Inr c3"
      "c' = (updateKeyword_B (p0 # ps) (ToLower p0) c3)\<lparr>idx := idx c + consumed\<rparr>"
    by blast
  then show ?thesis
  proof cases
    case 1
    then show ?thesis by simp
  next
    case 2
    from 2(1) have "tableIDSet c2 = tableIDSet c"
      using resolveAlias_frame by metis
    with collectTable_keeps [OF 2(2)] 2(3) show ?thesis
      by (simp add: updateKeyword_B_frame)
  qed
qed

lemma step_keeps:
  assumes "step f runes dp b c = Continue c'"
  shows "set (tableIDSet c) \<subseteq> set (tableIDSet c')"
proof (cases "state c = stateNormal")
  case False
  with assms have "c' = stringStep runes c"
    by (cases f) (simp_all add: step_def step_A_def step_B_def)
  with False show ?thesis using stringStep_frame [of c runes] by simp
next
  case True
  show ?thesis
  proof (cases f)
    case FirstFile
    with True assms show ?thesis
      using punctuation_A_frame [of runes b c c'] identifier_A_keeps [of runes dp c c']
      by (auto simp: step_def step_A_def split: option.splits if_splits)
  next
    case SecondFile
    with True assms show ?thesis
      using punctuation_B_frame [of runes b c c'] identifier_B_keeps [of runes dp c c']
      by (auto simp: step_def step_B_def split: option.splits if_splits)
  qed
qed

text \<open>A parse that succeeds returns every ID of the table-ID set it was given.\<close>

lemma parseSQL_scan_keeps:
  shows "parseSQL f sql dp T V A b = Inr (n, T', V', A') \<Longrightarrow> set T \<subseteq> set T'"
    and "scan f runes dp b c = Inr (n, T', V', A') \<Longrightarrow> set (tableIDSet c) \<subseteq> set T'"
proof (induction f sql dp T V A b and f runes dp b c arbitrary: n T' V' A' and n T' V' A'
       rule: parseSQL_scan.induct)
  case (1 f sql dp T V A b)
  show ?case
  proof (cases "sql \<in> V")
    case True
    with "1.prems" show ?thesis by (auto simp: parseSQL_visited)
  next
    case False
    with "1.prems" have "scan f sql dp b (initialContext T (insert sql V) A) = Inr (n, T', V', A')"
      by (simp add: parseSQL_fresh)
    from "1.IH" [OF False this] show ?thesis by (simp add: initialContext_def)
  qed
next
  case (2 f runes dp b c)
  show ?case
  proof (cases "idx c < length runes")
    case False
    with "2.prems" show ?thesis by (auto simp: scan_end split: if_splits)
  next
    case lt: True
    show ?thesis
    proof (cases "step f runes dp b c")
      case (Continue c')
      with lt "2.prems" have "scan f runes dp b c' = Inr (n, T', V', A')"
        by (simp add: scan_Continue)
      from "2.IH"(1) [OF lt Continue this] step_keeps [OF Continue]
      show ?thesis by auto
    next
      case Subquery
      show ?thesis
      proof (cases "parseSQL f (drop (idx c + 1) runes) dp (tableIDSet c) (visitedSQLs c) (aliases c) True")
        case (Inl e)
        with lt Subquery "2.prems" show ?thesis by (simp add: scan_Subquery_Inl)
      next
        case (Inr r)
        obtain m T1 V1 A1 where r: "r = (m, T1, V1, A1)" by (cases r) auto
        with Inr have sub: "parseSQL f (drop (idx c + 1) runes) dp (tableIDSet c) (visitedSQLs c)
            (aliases c) True = Inr (m, T1, V1, A1)" by simp
        from "2.IH"(2) [OF lt Subquery sub]
        have a: "set (tableIDSet c) \<subseteq> set T1" .
        from lt Subquery sub "2.prems"
        have "scan f runes dp b (afterSubquery c m T1 V1 A1) = Inr (n, T', V', A')"
          by (simp add: scan_Subquery_Inr)
        from "2.IH"(3) [OF lt Subquery sub refl refl refl this]
        have "set T1 \<subseteq> set T'" by (simp add: afterSubquery_def)
        with a show ?thesis by auto
      qed
    next
      case (DynamicSQL k)
      then show ?thesis using step_no_dynamic [of f runes dp b c k] by simp
    next
      case (Return k)
      with lt "2.prems" show ?thesis by (auto simp: scan_Return)
    next
      case (Fail e)
      with lt "2.prems" show ?thesis by (simp add: scan_Fail)
    qed
  qed
qed

text \<open>
  When the outer parse succeeds, the loop succeeds from every context of the run, and
  what it returns from there is in the table-ID set of the outer parse.
\<close>

lemma reaches_scan:
  assumes "parseSQL f sql dp [] {} {} False = Inr (n0, T0, V0, A0)"
  shows "reaches f sql dp runes b c \<Longrightarrow>
           \<exists>n T V A. scan f runes dp b c = Inr (n, T, V, A) \<and> set T \<subseteq> set T0"
proof (induction rule: reaches.induct)
  case start
  from assms show ?case by (simp add: parseSQL_fresh)
next
  case (continue runes b c c')
  then show ?case by (simp add: scan_Continue)
next
  case (descend runes b c)
  from descend.IH obtain n T V A where
    s: "scan f runes dp b c = Inr (n, T, V, A)" and sub: "set T \<subseteq> set T0" by blast
  show ?case
  proof (cases "parseSQL f (drop (idx c + 1) runes) dp (tableIDSet c) (visitedSQLs c) (aliases c) True")
    case (Inl e)
    with descend.hyps(2,3) s show ?thesis by (simp add: scan_Subquery_Inl)
  next
    case (Inr r)
    obtain m T1 V1 A1 where r: "r = (m, T1, V1, A1)" by (cases r) auto
    with Inr have p: "parseSQL f (drop (idx c + 1) runes) dp (tableIDSet c) (visitedSQLs c)
        (aliases c) True = Inr (m, T1, V1, A1)" by simp
    with descend.hyps(2,3) s
    have "scan f runes dp b (afterSubquery c m T1 V1 A1) = Inr (n, T, V, A)"
      by (simp add: scan_Subquery_Inr)
    from parseSQL_scan_keeps(2) [OF this] have "set T1 \<subseteq> set T" by (simp add: afterSubquery_def)
    with sub p descend.hyps(4) show ?thesis by (auto simp: parseSQL_fresh)
  qed
next
  case (resume runes b c consumed T V A)
  then show ?case by (simp add: scan_Subquery_Inr)
qed

lemma reaches_keeps:
  assumes "reaches f sql dp runes b c"
    and "parseSQL f sql dp [] {} {} False = Inr (n0, T0, V0, A0)"
  shows "set (tableIDSet c) \<subseteq> set T0"
proof -
  from reaches_scan [OF assms(2) assms(1)] obtain n T V A where
    "scan f runes dp b c = Inr (n, T, V, A)" and "set T \<subseteq> set T0" by blast
  with parseSQL_scan_keeps(2) [of f runes dp b c n T V A] show ?thesis by blast
qed

section \<open>Notions used in the statements\<close>

text \<open>A dry-run job that carries the given query statistics.\<close>

definition plannerJob :: "jobStatistics2 \<Rightarrow> job" where
  "plannerJob queryStats = \<lparr>Statistics = Some \<lparr>Query = Some queryStats\<rparr>\<rparr>"

text \<open>The error each file returns for \<^verbatim>\<open>EXECUTE IMMEDIATE\<close>.\<close>

definition executeImmediateError :: "parserFile \<Rightarrow> error" where
  "executeImmediateError f =
     (case f of FirstFile \<Rightarrow> ExecuteImmediateNotAllowed
      | SecondFile \<Rightarrow> ExecuteImmediateNotAllowedShort)"

text \<open>A context as it is after \<^verbatim>\<open>FROM\<close>: a table is expected and the last table keyword is \<open>from\<close>.\<close>

definition afterFrom :: parseContext where
  "afterFrom = (initialContext [] {} {})\<lparr>expectingTable := True, lastTableKeyword := ''from''\<rparr>"

text \<open>The alias set at the end of the parse that \<^verbatim>\<open>TableParser\<close> runs.\<close>

definition finalAliases :: "parserFile \<Rightarrow> string \<Rightarrow> string \<Rightarrow> string set" where
  "finalAliases f sql dp =
     (case parseSQL f sql dp [] {} {} False of
        Inl e \<Rightarrow> {}
      | Inr (n, T, V, A) \<Rightarrow> A)"

text \<open>
  The \<^verbatim>\<open>IsDatasetAllowed\<close> of a validator whose allow-list holds the one dataset
  \<open>project.dataset\<close>.
\<close>

definition allowOnly :: "string \<Rightarrow> string \<Rightarrow> string \<Rightarrow> string \<Rightarrow> bool" where
  "allowOnly project dataset projectID datasetID =
     (projectID = project \<and> datasetID = dataset)"

section \<open>The statement-type gate and the fast allow\<close>

text \<open>
  Claim C3. When the dry run answers with a job whose query statistics carry one of the
  statement types CREATE_SCHEMA, DROP_SCHEMA, ALTER_SCHEMA, CREATE_FUNCTION,
  CREATE_TABLE_FUNCTION, CREATE_PROCEDURE or CALL, the validator returns an error that
  depends on the statement type alone: whatever the SQL text, the project, the parser file
  and the allow-list predicate are, the first three types give the dataset-level error,
  the next three the stored-routine error ("contents cannot be safely analyzed"), and
  CALL the stored-procedure error.
\<close>

theorem C3_statement_type_gate:
  "ValidateQueryAgainstAllowedDatasets f
       (Inr (plannerJob (rest\<lparr>StatementType := ''CREATE_SCHEMA''\<rparr>))) projectID sql IsDatasetAllowed
     = Inl (DatasetLevelStatement ''CREATE_SCHEMA'')
   \<and> ValidateQueryAgainstAllowedDatasets f
       (Inr (plannerJob (rest\<lparr>StatementType := ''DROP_SCHEMA''\<rparr>))) projectID sql IsDatasetAllowed
     = Inl (DatasetLevelStatement ''DROP_SCHEMA'')
   \<and> ValidateQueryAgainstAllowedDatasets f
       (Inr (plannerJob (rest\<lparr>StatementType := ''ALTER_SCHEMA''\<rparr>))) projectID sql IsDatasetAllowed
     = Inl (DatasetLevelStatement ''ALTER_SCHEMA'')
   \<and> ValidateQueryAgainstAllowedDatasets f
       (Inr (plannerJob (rest\<lparr>StatementType := ''CREATE_FUNCTION''\<rparr>))) projectID sql IsDatasetAllowed
     = Inl (StoredRoutineStatement ''CREATE_FUNCTION'')
   \<and> ValidateQueryAgainstAllowedDatasets f
       (Inr (plannerJob (rest\<lparr>StatementType := ''CREATE_TABLE_FUNCTION''\<rparr>))) projectID sql IsDatasetAllowed
     = Inl (StoredRoutineStatement ''CREATE_TABLE_FUNCTION'')
   \<and> ValidateQueryAgainstAllowedDatasets f
       (Inr (plannerJob (rest\<lparr>StatementType := ''CREATE_PROCEDURE''\<rparr>))) projectID sql IsDatasetAllowed
     = Inl (StoredRoutineStatement ''CREATE_PROCEDURE'')
   \<and> ValidateQueryAgainstAllowedDatasets f
       (Inr (plannerJob (rest\<lparr>StatementType := ''CALL''\<rparr>))) projectID sql IsDatasetAllowed
     = Inl (CallStatement ''CALL'')"
  by (simp add: ValidateQueryAgainstAllowedDatasets_def DryRunQuery_def plannerJob_def
                statementTypeGate_def)

text \<open>
  Claim C2 at a planner reference whose project ID holds a dot. The claim: the validator
  returns at the fast-allow step if and only if the planner's references
  (ReferencedTables, DdlTargetTable, DdlDestinationTable) are not empty and every one of
  them passes \<^verbatim>\<open>IsDatasetAllowed\<close> on its project and dataset; with no reference it
  allows only when the local parse finds no disallowed table. The validator does not
  test the project and dataset of a reference: it formats the reference as
  \<open>project.dataset.table\<close>, splits that string on dots again and calls
  \<^verbatim>\<open>IsDatasetAllowed\<close> only when there are exactly three parts. For the domain-scoped
  project \<open>example.com:proj\<close> there are four: the reference to dataset \<open>d\<close> is not
  tested, no table violates, and the job is returned at the fast-allow step although
  the allow-list holds the dataset \<open>ok\<close> only. The loop over the tables of the local
  parse splits in the same way: with no planner reference and that project as default
  project, the table \<open>d.t\<close> of the text is parsed as \<open>example.com:proj.d.t\<close> and
  allowed as well, in either parser file.
\<close>

theorem C2_dotted_project_allowed:
  "plannerReferences
       \<lparr>StatementType = ''SELECT'',
        ReferencedTables = [\<lparr>ProjectId = ''example.com:proj'', DatasetId = ''d'', TableId = ''t''\<rparr>],
        DdlTargetTable = None, DdlDestinationTable = None\<rparr>
     = [\<lparr>ProjectId = ''example.com:proj'', DatasetId = ''d'', TableId = ''t''\<rparr>]
   \<and> \<not> allowOnly ''example.com:proj'' ''ok'' ''example.com:proj'' ''d''
   \<and> SplitDot (tableRefID \<lparr>ProjectId = ''example.com:proj'', DatasetId = ''d'', TableId = ''t''\<rparr>)
       = [''example'', ''com:proj'', ''d'', ''t'']
   \<and> fastAllow (allowOnly ''example.com:proj'' ''ok'')
       \<lparr>StatementType = ''SELECT'',
        ReferencedTables = [\<lparr>ProjectId = ''example.com:proj'', DatasetId = ''d'', TableId = ''t''\<rparr>],
        DdlTargetTable = None, DdlDestinationTable = None\<rparr>
   \<and> ValidateQueryAgainstAllowedDatasets FirstFile
       (Inr (plannerJob
         \<lparr>StatementType = ''SELECT'',
          ReferencedTables = [\<lparr>ProjectId = ''example.com:proj'', DatasetId = ''d'', TableId = ''t''\<rparr>],
          DdlTargetTable = None, DdlDestinationTable = None\<rparr>))
       ''example.com:proj'' ''SELECT * FROM d.t'' (allowOnly ''example.com:proj'' ''ok'')
     = Inr (plannerJob
         \<lparr>StatementType = ''SELECT'',
          ReferencedTables = [\<lparr>ProjectId = ''example.com:proj'', DatasetId = ''d'', TableId = ''t''\<rparr>],
          DdlTargetTable = None, DdlDestinationTable = None\<rparr>)
   \<and> TableParser FirstFile ''SELECT * FROM d.t'' ''example.com:proj'' = Inr [''example.com:proj.d.t'']
   \<and> ValidateQueryAgainstAllowedDatasets FirstFile
       (Inr (plannerJob
         \<lparr>StatementType = ''SELECT'', ReferencedTables = [],
          DdlTargetTable = None, DdlDestinationTable = None\<rparr>))
       ''example.com:proj'' ''SELECT * FROM d.t'' (allowOnly ''example.com:proj'' ''ok'')
     = Inr (plannerJob
         \<lparr>StatementType = ''SELECT'', ReferencedTables = [],
          DdlTargetTable = None, DdlDestinationTable = None\<rparr>)
   \<and> ValidateQueryAgainstAllowedDatasets SecondFile
       (Inr (plannerJob
         \<lparr>StatementType = ''SELECT'', ReferencedTables = [],
          DdlTargetTable = None, DdlDestinationTable = None\<rparr>))
       ''example.com:proj'' ''SELECT * FROM d.t'' (allowOnly ''example.com:proj'' ''ok'')
     = Inr (plannerJob
         \<lparr>StatementType = ''SELECT'', ReferencedTables = [],
          DdlTargetTable = None, DdlDestinationTable = None\<rparr>)
   \<and> ValidateQueryAgainstAllowedDatasets FirstFile
       (Inr (plannerJob
         \<lparr>StatementType = ''SELECT'',
          ReferencedTables = [\<lparr>ProjectId = ''proj'', DatasetId = ''d'', TableId = ''t''\<rparr>],
          DdlTargetTable = None, DdlDestinationTable = None\<rparr>))
       ''proj'' ''SELECT * FROM d.t'' (allowOnly ''proj'' ''ok'')
     = Inl (AccessNotAllowed ''proj.d'')"
  by (intro conjI; code_simp)

section \<open>EXECUTE IMMEDIATE\<close>

text \<open>
  Claim C1. In either parser file: if a run of \<^verbatim>\<open>TableParser\<close> on \<open>sql\<close> passes, in
  the outer call or in a subquery call, through a context in Normal state in which the
  state machine reads the single-part identifier \<open>p\<close> with
  \<open>ToLower p = ''immediate''\<close> while \<^verbatim>\<open>lastToken\<close> is \<open>''execute''\<close>, then
  \<^verbatim>\<open>TableParser\<close> returns the file's error "EXECUTE IMMEDIATE is not allowed when dataset
  restrictions are in place ...". The iteration returns that error itself; in particular
  it is not the call of \<^verbatim>\<open>findAndParseSQLString\<close> that would parse the literal, which no
  iteration of either file ever is.
\<close>

theorem C1_execute_immediate_denied:
  assumes "reaches f sql dp runes b c"
    and "readsIdentifier f runes b c [p] consumed"
    and "ToLower p = ''immediate''"
    and "lastToken c = ''execute''"
  shows "TableParser f sql dp = Inl (executeImmediateError f)
         \<and> HasPrefix (errorMessage (executeImmediateError f)) ''EXECUTE IMMEDIATE is not allowed''
         \<and> step f runes dp b c = Fail (executeImmediateError f)
         \<and> (\<forall>runes' b' c' n. step f runes' dp b' c' \<noteq> DynamicSQL n)"
proof -
  have st: "step f runes dp b c = Fail (executeImmediateError f)"
  proof (cases f)
    case FirstFile
    with assms show ?thesis
      by (simp add: executeImmediateError_def immediate_Fail_A)
  next
    case SecondFile
    with assms show ?thesis
      by (simp add: executeImmediateError_def immediate_Fail_B)
  qed
  from assms(2) have "idx c < length runes" by (simp add: readsIdentifier_def)
  with st have "scan f runes dp b c = Inl (executeImmediateError f)" by (simp add: scan_Fail)
  with assms(1) have "TableParser f sql dp = Inl (executeImmediateError f)"
    by (rule error_propagates)
  moreover have "HasPrefix (errorMessage (executeImmediateError f)) ''EXECUTE IMMEDIATE is not allowed''"
    by (cases f) (simp_all add: executeImmediateError_def HasPrefix_def)
  ultimately show ?thesis using st step_no_dynamic by blast
qed

theorem C1_execute_immediate_denied_witness:
  "TableParser FirstFile ''SELECT 1; EXECUTE IMMEDIATE x'' ''p'' = Inl ExecuteImmediateNotAllowed
   \<and> TableParser SecondFile ''SELECT 1; EXECUTE IMMEDIATE x'' ''p''
       = Inl ExecuteImmediateNotAllowedShort"
proof -
  let ?sql = "''SELECT 1; EXECUTE IMMEDIATE x''"
  let ?c0 = "initialContext [] {?sql} {}"
  let ?cA = "the (advance FirstFile ?sql ''p'' False 7 ?c0)"
  let ?cB = "the (advance SecondFile ?sql ''p'' False 5 ?c0)"
  have "advance FirstFile ?sql ''p'' False 7 ?c0 = Some ?cA" by code_simp
  with reaches.start have rA: "reaches FirstFile ?sql ''p'' ?sql False ?cA"
    by (rule reaches_advance)
  have "advance SecondFile ?sql ''p'' False 5 ?c0 = Some ?cB" by code_simp
  with reaches.start have rB: "reaches SecondFile ?sql ''p'' ?sql False ?cB"
    by (rule reaches_advance)
  have idA: "readsIdentifier FirstFile ?sql False ?cA [''IMMEDIATE''] 9" by code_simp
  have idB: "readsIdentifier SecondFile ?sql False ?cB [''IMMEDIATE''] 10" by code_simp
  have low: "ToLower ''IMMEDIATE'' = ''immediate''" by code_simp
  have tokA: "lastToken ?cA = ''execute''" by code_simp
  have tokB: "lastToken ?cB = ''execute''" by code_simp
  from C1_execute_immediate_denied [OF rA idA low tokA]
    C1_execute_immediate_denied [OF rB idB low tokB]
  show ?thesis by (simp add: executeImmediateError_def)
qed

section \<open>Two-part and over-long identifiers in table position\<close>

text \<open>
  Claim C7, as stated: a two-part identifier \<open>d.t\<close> collected in table position under a
  configured default project is emitted as the default project, a dot, and \<open>d.t\<close>. In
  \<^verbatim>\<open>SELECT * FROM d.t AS t\<close> with default project \<open>p\<close> the state machine of either
  file reads \<open>d.t\<close> in table position and collects \<open>p.d.t\<close>, then registers the alias
  \<open>t\<close>; the filter at the end of \<^verbatim>\<open>TableParser\<close> drops every ID one of whose dotted
  suffixes is an alias, and \<^verbatim>\<open>TableParser\<close> returns no table.
\<close>

theorem C7_counterexample:
  "reaches FirstFile ''SELECT * FROM d.t AS t'' ''p'' ''SELECT * FROM d.t AS t'' False
       ((initialContext [] {''SELECT * FROM d.t AS t''} {})
          \<lparr>idx := 14, expectingTable := True, lastTableKeyword := ''from'',
           lastToken := ''from'', statementVerb := ''select''\<rparr>)
   \<and> readsIdentifier FirstFile ''SELECT * FROM d.t AS t'' False
       ((initialContext [] {''SELECT * FROM d.t AS t''} {})
          \<lparr>idx := 14, expectingTable := True, lastTableKeyword := ''from'',
           lastToken := ''from'', statementVerb := ''select''\<rparr>) [''d'', ''t''] 3
   \<and> inTablePosition FirstFile [''d'', ''t'']
       ((initialContext [] {''SELECT * FROM d.t AS t''} {})
          \<lparr>idx := 14, expectingTable := True, lastTableKeyword := ''from'',
           lastToken := ''from'', statementVerb := ''select''\<rparr>)
   \<and> TableParser FirstFile ''SELECT * FROM d.t AS t'' ''p'' = Inr []
   \<and> TableParser SecondFile ''SELECT * FROM d.t AS t'' ''p'' = Inr []
   \<and> ''p.d.t'' \<notin> set ([] :: string list)"
proof -
  let ?sql = "''SELECT * FROM d.t AS t''"
  let ?start = "initialContext [] {?sql} {}"
  let ?c = "?start\<lparr>idx := 14, expectingTable := True, lastTableKeyword := ''from'',
                  lastToken := ''from'', statementVerb := ''select''\<rparr>"
  have "advance FirstFile ?sql ''p'' False 6 ?start = Some ?c" by code_simp
  with reaches.start have r: "reaches FirstFile ?sql ''p'' ?sql False ?c"
    by (rule reaches_advance)
  have i: "readsIdentifier FirstFile ?sql False ?c [''d'', ''t''] 3" by code_simp
  have p: "inTablePosition FirstFile [''d'', ''t''] ?c" by code_simp
  have a: "TableParser FirstFile ?sql ''p'' = Inr []" by code_simp
  have b: "TableParser SecondFile ?sql ''p'' = Inr []" by code_simp
  from r i p a b show ?thesis by simp
qed

text \<open>
  Claim C7, amended. In either parser file: let a run of \<^verbatim>\<open>TableParser\<close> on \<open>sql\<close> with
  default project \<open>dp\<close> pass through a context in which the state machine reads the
  two-part identifier sequence \<open>[d, t]\<close> in table position. If \<open>dp\<close> is empty,
  \<^verbatim>\<open>TableParser\<close> fails with the error whose message is "query contains table 'd.t'
  without project ID, and no default project ID is provided". If \<open>dp\<close> is not empty,
  \<^verbatim>\<open>formatTableID\<close> returns exactly \<open>dp.d.t\<close>, the iteration goes on with that ID
  inserted into the table-ID set, and \<^verbatim>\<open>TableParser\<close>, when it succeeds, returns
  \<open>dp.d.t\<close> in its list unless the alias filter drops it: the ID is in the list if and
  only if none of its dotted suffixes, lowercased, is in the alias set at the end of
  the parse.
\<close>

theorem C7_two_part_identifier:
  assumes "reaches f sql dp runes b c"
    and "readsIdentifier f runes b c [d, t] consumed"
    and "inTablePosition f [d, t] c"
  shows "(dp = [] \<longrightarrow>
            TableParser f sql dp = Inl (MissingProject (d @ ''.'' @ t))
            \<and> errorMessage (MissingProject (d @ ''.'' @ t))
                = ''query contains table '' @ [CHR 0x27] @ d @ ''.'' @ t @ [CHR 0x27]
                  @ '' without project ID, and no default project ID is provided'')
         \<and> (dp \<noteq> [] \<longrightarrow>
              formatTableID [d, t] dp = Inr (dp @ ''.'' @ d @ ''.'' @ t)
              \<and> (\<exists>c'. step f runes dp b c = Continue c'
                     \<and> tableIDSet c' = insertKey (dp @ ''.'' @ d @ ''.'' @ t) (tableIDSet c))
              \<and> (\<forall>ts. TableParser f sql dp = Inr ts \<longrightarrow>
                     (dp @ ''.'' @ d @ ''.'' @ t \<in> set ts
                      \<longleftrightarrow> \<not> isAliasID (finalAliases f sql dp) (dp @ ''.'' @ d @ ''.'' @ t))))"
proof -
  from table_position_step [OF assms(2,3), of dp] obtain c2 where
    e: "expectingTable c2" and t: "tableIDSet c2 = tableIDSet c"
    and fail: "\<And>e. collectTable [d, t] dp False c2 = Inl e \<Longrightarrow> step f runes dp b c = Fail e"
    and cont: "\<And>c3. collectTable [d, t] dp False c2 = Inr c3 \<Longrightarrow>
                 \<exists>c'. step f runes dp b c = Continue c' \<and> tableIDSet c' = tableIDSet c3"
    by blast
  from assms(2) have lt: "idx c < length runes" by (simp add: readsIdentifier_def)
  have inserted: "\<exists>c'. step f runes dp b c = Continue c'
        \<and> tableIDSet c' = insertKey (dp @ ''.'' @ d @ ''.'' @ t) (tableIDSet c)" if "dp \<noteq> []"
  proof -
    from e that obtain c3 where "collectTable [d, t] dp False c2 = Inr c3"
      and "tableIDSet c3 = insertKey (dp @ ''.'' @ d @ ''.'' @ t) (tableIDSet c2)"
      using collectTable_two_default [of c2 dp d t] by blast
    with cont t show ?thesis by fastforce
  qed
  show ?thesis
  proof (intro conjI impI allI)
    assume "dp = []"
    with e fail have "step f runes dp b c = Fail (MissingProject (d @ ''.'' @ t))"
      by (simp add: collectTable_two_no_default)
    with lt have "scan f runes dp b c = Inl (MissingProject (d @ ''.'' @ t))"
      by (simp add: scan_Fail)
    with assms(1) show "TableParser f sql dp = Inl (MissingProject (d @ ''.'' @ t))"
      by (rule error_propagates)
  next
    show "errorMessage (MissingProject (d @ ''.'' @ t))
                = ''query contains table '' @ [CHR 0x27] @ d @ ''.'' @ t @ [CHR 0x27]
                  @ '' without project ID, and no default project ID is provided''"
      by simp
  next
    assume "dp \<noteq> []"
    then show "formatTableID [d, t] dp = Inr (dp @ ''.'' @ d @ ''.'' @ t)"
      by (simp add: formatTableID_def)
  next
    assume "dp \<noteq> []"
    then show "\<exists>c'. step f runes dp b c = Continue c'
        \<and> tableIDSet c' = insertKey (dp @ ''.'' @ d @ ''.'' @ t) (tableIDSet c)"
      by (rule inserted)
  next
    fix ts
    assume dp: "dp \<noteq> []" and tp: "TableParser f sql dp = Inr ts"
    from tp obtain n0 T0 V0 A0 where
      p: "parseSQL f sql dp [] {} {} False = Inr (n0, T0, V0, A0)"
      and ts: "ts = filter (\<lambda>ident. \<not> isAliasID A0 ident) T0"
      by (auto simp: TableParser_def split: sum.splits)
    from inserted [OF dp] obtain c' where
      s: "step f runes dp b c = Continue c'"
      and k: "tableIDSet c' = insertKey (dp @ ''.'' @ d @ ''.'' @ t) (tableIDSet c)"
      by blast
    from assms(1) lt s have "reaches f sql dp runes b c'" by (rule reaches.continue)
    from reaches_keeps [OF this p] k have "dp @ ''.'' @ d @ ''.'' @ t \<in> set T0"
      by (simp add: set_insertKey)
    moreover from p have "finalAliases f sql dp = A0" by (simp add: finalAliases_def)
    ultimately show "dp @ ''.'' @ d @ ''.'' @ t \<in> set ts
        \<longleftrightarrow> \<not> isAliasID (finalAliases f sql dp) (dp @ ''.'' @ d @ ''.'' @ t)"
      using ts by simp
  qed
qed

theorem C7_two_part_identifier_witness:
  "TableParser FirstFile ''SELECT * FROM d.t'' [] = Inl (MissingProject ''d.t'')
   \<and> TableParser SecondFile ''SELECT * FROM d.t'' [] = Inl (MissingProject ''d.t'')
   \<and> formatTableID [''d'', ''t''] ''p'' = Inr ''p.d.t''
   \<and> (\<exists>c'. step FirstFile ''SELECT * FROM d.t'' ''p'' False
              ((initialContext [] {''SELECT * FROM d.t''} {})
                 \<lparr>idx := 14, expectingTable := True, lastTableKeyword := ''from'',
                  lastToken := ''from'', statementVerb := ''select''\<rparr>) = Continue c'
           \<and> tableIDSet c' = [''p.d.t''])
   \<and> TableParser FirstFile ''SELECT * FROM d.t'' ''p'' = Inr [''p.d.t'']
   \<and> \<not> isAliasID (finalAliases FirstFile ''SELECT * FROM d.t'' ''p'') ''p.d.t''
   \<and> TableParser SecondFile ''SELECT * FROM d.t'' ''p'' = Inr [''p.d.t'']
   \<and> \<not> isAliasID (finalAliases SecondFile ''SELECT * FROM d.t'' ''p'') ''p.d.t''
   \<and> TableParser FirstFile ''SELECT * FROM d.t AS t'' ''p'' = Inr []
   \<and> isAliasID (finalAliases FirstFile ''SELECT * FROM d.t AS t'' ''p'') ''p.d.t''"
proof -
  let ?sql = "''SELECT * FROM d.t''"
  let ?start = "initialContext [] {?sql} {}"
  let ?c = "?start\<lparr>idx := 14, expectingTable := True, lastTableKeyword := ''from'',
                  lastToken := ''from'', statementVerb := ''select''\<rparr>"
  let ?sql2 = "''SELECT * FROM d.t AS t''"
  let ?start2 = "initialContext [] {?sql2} {}"
  let ?c2 = "?start2\<lparr>idx := 14, expectingTable := True, lastTableKeyword := ''from'',
                  lastToken := ''from'', statementVerb := ''select''\<rparr>"
  have "advance FirstFile ?sql [] False 6 ?start = Some ?c" by code_simp
  with reaches.start have rA: "reaches FirstFile ?sql [] ?sql False ?c"
    by (rule reaches_advance)
  have "advance SecondFile ?sql [] False 4 ?start = Some ?c" by code_simp
  with reaches.start have rB: "reaches SecondFile ?sql [] ?sql False ?c"
    by (rule reaches_advance)
  have "advance FirstFile ?sql ''p'' False 6 ?start = Some ?c" by code_simp
  with reaches.start have rP: "reaches FirstFile ?sql ''p'' ?sql False ?c"
    by (rule reaches_advance)
  have "advance SecondFile ?sql ''p'' False 4 ?start = Some ?c" by code_simp
  with reaches.start have rQ: "reaches SecondFile ?sql ''p'' ?sql False ?c"
    by (rule reaches_advance)
  have "advance FirstFile ?sql2 ''p'' False 6 ?start2 = Some ?c2" by code_simp
  with reaches.start have rR: "reaches FirstFile ?sql2 ''p'' ?sql2 False ?c2"
    by (rule reaches_advance)
  have idA: "readsIdentifier FirstFile ?sql False ?c [''d'', ''t''] 3" by code_simp
  have idB: "readsIdentifier SecondFile ?sql False ?c [''d'', ''t''] 3" by code_simp
  have idR: "readsIdentifier FirstFile ?sql2 False ?c2 [''d'', ''t''] 3" by code_simp
  have posA: "inTablePosition FirstFile [''d'', ''t''] ?c" by code_simp
  have posB: "inTablePosition SecondFile [''d'', ''t''] ?c" by code_simp
  have posR: "inTablePosition FirstFile [''d'', ''t''] ?c2" by code_simp
  have tpA: "TableParser FirstFile ?sql ''p'' = Inr [''p.d.t'']" by code_simp
  have tpB: "TableParser SecondFile ?sql ''p'' = Inr [''p.d.t'']" by code_simp
  have tpR: "TableParser FirstFile ?sql2 ''p'' = Inr []" by code_simp
  from C7_two_part_identifier [OF rA idA posA] C7_two_part_identifier [OF rB idB posB]
    C7_two_part_identifier [OF rP idA posA] C7_two_part_identifier [OF rQ idB posB]
    C7_two_part_identifier [OF rR idR posR] tpA tpB tpR
  show ?thesis by (simp add: insertKey_def initialContext_def)
qed

text \<open>
  Claim C10. For an identifier sequence of four or more parts, \<^verbatim>\<open>formatTableID\<close>
  (the same in both files) returns the empty string and no error, whatever the default
  project. When the state machine of the first file reads such a sequence while a table
  is expected, the iteration returns no error and goes on with the table-ID set
  unchanged, so the reference adds nothing to the list \<^verbatim>\<open>TableParser\<close> returns. The
  same holds in the second file for a sequence that its security checks, which there
  come first and also look at the first part of a multi-part sequence, let through.
\<close>

theorem C10_four_parts_dropped:
  assumes "readsIdentifier f runes b c parts consumed"
    and "expectingTable c"
    and "4 \<le> length parts"
    and "f = FirstFile \<or> gate_B (ToLower (hd parts)) c = None"
  shows "formatTableID parts dp = Inr []
         \<and> (\<exists>c'. step f runes dp b c = Continue c' \<and> tableIDSet c' = tableIDSet c)"
proof -
  from assms(3) obtain p0 ps where parts: "parts = p0 # ps" by (cases parts) auto
  have fmt: "formatTableID parts dp = Inr []"
    using assms(3) by (simp add: formatTableID_def)
  have "\<exists>c'. step f runes dp b c = Continue c' \<and> tableIDSet c' = tableIDSet c"
  proof (cases f)
    case FirstFile
    from assms(3) parts have g: "gate_A (p0 # ps) (ToLower p0) c = Inr c"
      by (auto simp: gate_A_def)
    obtain c2 known where r: "resolveAlias tableContextExitKeywords_A (p0 # ps) (ToLower p0)
        (ToLower (JoinDot (p0 # ps))) c = (c2, known)"
      by (cases "resolveAlias tableContextExitKeywords_A (p0 # ps) (ToLower p0)
            (ToLower (JoinDot (p0 # ps))) c")
    from collectTable_four [of "p0 # ps" dp known c2] assms(3) parts obtain c3 where
      c3: "collectTable (p0 # ps) dp known c2 = Inr c3" "tableIDSet c3 = tableIDSet c2"
      by auto
    from assms(1) FirstFile parts
    have "readsIdentifier FirstFile runes b c (p0 # ps) consumed" by simp
    from dispatch_A [OF this, of dp] g r c3(1)
    have "step FirstFile runes dp b c
        = Continue ((updateKeyword_A (p0 # ps) (ToLower p0) c3)\<lparr>idx := idx c + consumed\<rparr>)"
      by simp
    with FirstFile c3(2) resolveAlias_frame [OF r] show ?thesis
      by (simp add: updateKeyword_A_frame)
  next
    case SecondFile
    with assms(4) parts have g: "gate_B (ToLower p0) c = None" by simp
    obtain c2 known where r: "resolveAlias tableContextExitKeywords_B (p0 # ps) (ToLower p0)
        (ToLower (JoinDot (p0 # ps))) c = (c2, known)"
      by (cases "resolveAlias tableContextExitKeywords_B (p0 # ps) (ToLower p0)
            (ToLower (JoinDot (p0 # ps))) c")
    from collectTable_four [of "p0 # ps" dp known c2] assms(3) parts obtain c3 where
      c3: "collectTable (p0 # ps) dp known c2 = Inr c3" "tableIDSet c3 = tableIDSet c2"
      by auto
    from assms(1) SecondFile parts
    have "readsIdentifier SecondFile runes b c (p0 # ps) consumed" by simp
    from dispatch_B [OF this, of dp] g r c3(1)
    have "step SecondFile runes dp b c
        = Continue ((updateKeyword_B (p0 # ps) (ToLower p0) c3)\<lparr>idx := idx c + consumed\<rparr>)"
      by simp
    with SecondFile c3(2) resolveAlias_frame [OF r] show ?thesis
      by (simp add: updateKeyword_B_frame)
  qed
  with fmt show ?thesis by simp
qed

theorem C10_four_parts_dropped_witness:
  "formatTableID [''a'', ''b'', ''c'', ''d''] ''p'' = Inr []
   \<and> (\<exists>c'. step FirstFile ''SELECT * FROM a.b.c.d'' ''p'' False
              ((initialContext [] {''SELECT * FROM a.b.c.d''} {})
                 \<lparr>idx := 14, expectingTable := True, lastTableKeyword := ''from'',
                  lastToken := ''from'', statementVerb := ''select''\<rparr>) = Continue c'
           \<and> tableIDSet c' = [])
   \<and> (\<exists>c'. step SecondFile ''SELECT * FROM a.b.c.d'' ''p'' False
              ((initialContext [] {''SELECT * FROM a.b.c.d''} {})
                 \<lparr>idx := 14, expectingTable := True, lastTableKeyword := ''from'',
                  lastToken := ''from'', statementVerb := ''select''\<rparr>) = Continue c'
           \<and> tableIDSet c' = [])
   \<and> TableParser FirstFile ''SELECT * FROM a.b.c.d'' ''p'' = Inr []
   \<and> TableParser SecondFile ''SELECT * FROM a.b.c.d'' ''p'' = Inr []"
proof -
  let ?sql = "''SELECT * FROM a.b.c.d''"
  let ?start = "initialContext [] {?sql} {}"
  let ?c = "?start\<lparr>idx := 14, expectingTable := True, lastTableKeyword := ''from'',
                  lastToken := ''from'', statementVerb := ''select''\<rparr>"
  have runA: "advance FirstFile ?sql ''p'' False 6 ?start = Some ?c" by code_simp
  have runB: "advance SecondFile ?sql ''p'' False 4 ?start = Some ?c" by code_simp
  have idA: "readsIdentifier FirstFile ?sql False ?c [''a'', ''b'', ''c'', ''d''] 7" by code_simp
  have idB: "readsIdentifier SecondFile ?sql False ?c [''a'', ''b'', ''c'', ''d''] 7" by code_simp
  have ex: "expectingTable ?c" by simp
  have len: "4 \<le> length [''a'', ''b'', ''c'', ''d'']" by simp
  have gA: "FirstFile = FirstFile \<or> gate_B (ToLower (hd [''a'', ''b'', ''c'', ''d''])) ?c = None"
    by simp
  have "gate_B (ToLower (hd [''a'', ''b'', ''c'', ''d''])) ?c = None" by code_simp
  then have gB: "SecondFile = FirstFile \<or> gate_B (ToLower (hd [''a'', ''b'', ''c'', ''d''])) ?c = None"
    by simp
  have tpA: "TableParser FirstFile ?sql ''p'' = Inr []" by code_simp
  have tpB: "TableParser SecondFile ?sql ''p'' = Inr []" by code_simp
  from C10_four_parts_dropped [OF idA ex len gA, of "''p''"]
    C10_four_parts_dropped [OF idB ex len gB, of "''p''"] tpA tpB
  show ?thesis by (simp add: initialContext_def)
qed

section \<open>Where the first file departs from the second\<close>

text \<open>
  Claim C4 at the input \<^verbatim>\<open>WITH c AS (SELECT 1) DROP SCHEMA d\<close>. The second file adopts
  \<open>drop\<close> as statement verb over \<open>with\<close> (\<open>verb_adopted_B\<close>) and denies
  \<^verbatim>\<open>DROP SCHEMA\<close>. The first file adopts a verb only while \<^verbatim>\<open>statementVerb\<close> is empty:
  reading \<^verbatim>\<open>DROP\<close> under \<open>with\<close> leaves \<open>with\<close> in place, the dataset-level test
  does not fire, and \<^verbatim>\<open>TableParser\<close> succeeds with no table.
\<close>

theorem C4_with_then_drop_schema:
  "TableParser FirstFile ''WITH c AS (SELECT 1) DROP SCHEMA d'' ''p'' = Inr []
   \<and> TableParser SecondFile ''WITH c AS (SELECT 1) DROP SCHEMA d'' ''p''
       = Inl (DatasetLevelOperationShort ''DROP'' ''SCHEMA'')
   \<and> map_option statementVerb
       (advance FirstFile ''DROP SCHEMA d'' ''p'' False 1
          ((initialContext [] {} {})\<lparr>statementVerb := ''with''\<rparr>)) = Some ''with''
   \<and> map_option statementVerb
       (advance SecondFile ''DROP SCHEMA d'' ''p'' False 1
          ((initialContext [] {} {})\<lparr>statementVerb := ''with''\<rparr>)) = Some ''drop''"
  by (intro conjI; code_simp)

text \<open>
  Claim C5 at \<^verbatim>\<open>UNION\<close>, \<^verbatim>\<open>INTERSECT\<close> and \<^verbatim>\<open>EXCEPT\<close>. The second file lists the
  twelve context-exit keywords and clears the three variables at each
  (\<open>exit_keyword_clears_B\<close>). The first file lists nine: after \<^verbatim>\<open>FROM\<close>, reading
  one of the other three leaves \<^verbatim>\<open>expectingTable\<close> set and \<^verbatim>\<open>lastTableKeyword\<close> at
  \<open>from\<close>, and sets \<^verbatim>\<open>expectingAlias\<close>; then the comma of a later select list
  makes \<open>a.b.c\<close> a table.
\<close>

theorem C5_union_intersect_except:
  "map_option (\<lambda>c. (expectingTable c, lastTableKeyword c, expectingAlias c))
     (advance FirstFile ''UNION'' ''p'' False 1 afterFrom) = Some (True, ''from'', True)
   \<and> map_option (\<lambda>c. (expectingTable c, lastTableKeyword c, expectingAlias c))
     (advance FirstFile ''INTERSECT'' ''p'' False 1 afterFrom) = Some (True, ''from'', True)
   \<and> map_option (\<lambda>c. (expectingTable c, lastTableKeyword c, expectingAlias c))
     (advance FirstFile ''EXCEPT'' ''p'' False 1 afterFrom) = Some (True, ''from'', True)
   \<and> map_option (\<lambda>c. (expectingTable c, lastTableKeyword c, expectingAlias c))
     (advance SecondFile ''UNION'' ''p'' False 1 afterFrom) = Some (False, [], False)
   \<and> TableParser FirstFile ''SELECT 1 FROM p.d.t1 UNION ALL SELECT 1, a.b.c'' ''p''
       = Inr [''p.d.t1'', ''a.b.c'']
   \<and> TableParser SecondFile ''SELECT 1 FROM p.d.t1 UNION ALL SELECT 1, a.b.c'' ''p''
       = Inr [''p.d.t1'']"
  by (intro conjI; code_simp)

section \<open>Three parts, no whitespace\<close>




section \<open>Termination and the visited-SQL set\<close>

text \<open>
  Claim C9. In either parser file. (1) Every call of \<^verbatim>\<open>parseSQL\<close>, on any text and any
  three sets, lies in the domain on which the recursion of \<^verbatim>\<open>parseSQL\<close> and its loop is
  well-founded: the call terminates, and so does \<^verbatim>\<open>TableParser\<close>, which is one such call
  followed by a filter. (2) The test of the visited set is the first thing a call does: on
  a text that is in the set it returns the length of the text and the three sets
  unchanged, without scanning. (3) A call that returns leaves its text in the visited
  set, next to all that was there, so a later call on the same text with that set or a
  larger one returns at once. (4) In every context a run of \<^verbatim>\<open>TableParser\<close> passes
  through, the text of the call being scanned is in the visited set, so a recursive call
  on it would return at once as well.
\<close>

theorem C9_terminates_visited_once:
  "parseSQL_scan_dom (Inl (f, sql, dp, T, V, A, b))
   \<and> (sql \<in> V \<longrightarrow> parseSQL f sql dp T V A b = Inr (length sql, T, V, A))
   \<and> (parseSQL f sql dp T V A b = Inr (n, T', V', A') \<longrightarrow>
        insert sql V \<subseteq> V'
        \<and> (\<forall>V2 T2 A2 b2. V' \<subseteq> V2 \<longrightarrow>
              parseSQL f sql dp T2 V2 A2 b2 = Inr (length sql, T2, V2, A2)))
   \<and> (reaches f outer dp sql b c \<longrightarrow>
        parseSQL f sql dp (tableIDSet c) (visitedSQLs c) (aliases c) True
          = Inr (length sql, tableIDSet c, visitedSQLs c, aliases c))"
proof (intro conjI impI allI)
  show "parseSQL_scan_dom (Inl (f, sql, dp, T, V, A, b))"
    using parseSQL_scan_total by blast
next
  assume "sql \<in> V"
  then show "parseSQL f sql dp T V A b = Inr (length sql, T, V, A)"
    by (rule parseSQL_visited)
next
  assume "parseSQL f sql dp T V A b = Inr (n, T', V', A')"
  from parseSQL_scan_result(1) [OF this] show "insert sql V \<subseteq> V'" by simp
next
  fix V2 :: "string set" and T2 :: "string list" and A2 :: "string set" and b2 :: bool
  assume "parseSQL f sql dp T V A b = Inr (n, T', V', A')" and "V' \<subseteq> V2"
  with parseSQL_scan_result(1) [of f sql dp T V A b n T' V' A'] have "sql \<in> V2" by auto
  then show "parseSQL f sql dp T2 V2 A2 b2 = Inr (length sql, T2, V2, A2)"
    by (rule parseSQL_visited)
next
  assume "reaches f outer dp sql b c"
  then have "sql \<in> visitedSQLs c" by (simp add: reaches_visited)
  then show "parseSQL f sql dp (tableIDSet c) (visitedSQLs c) (aliases c) True
      = Inr (length sql, tableIDSet c, visitedSQLs c, aliases c)"
    by (rule parseSQL_visited)
qed

theorem C9_terminates_visited_once_witness:
  "parseSQL FirstFile ''SELECT 1'' ''p'' [] {''SELECT 1''} {} False
     = Inr (8, [], {''SELECT 1''}, {})
   \<and> parseSQL FirstFile ''SELECT 1'' ''p'' [] {} {} False = Inr (8, [], {''SELECT 1''}, {})
   \<and> parseSQL FirstFile ''SELECT 1'' ''p'' [''x''] {''SELECT 1'', ''y''} {''a''} True
     = Inr (8, [''x''], {''SELECT 1'', ''y''}, {''a''})
   \<and> parseSQL FirstFile ''SELECT 1'' ''p'' [] {''SELECT 1''} {} True
     = Inr (8, [], {''SELECT 1''}, {})"
proof -
  let ?sql = "''SELECT 1''"
  have mem: "?sql \<in> {?sql}" by simp
  have run: "parseSQL FirstFile ?sql ''p'' [] {} {} False = Inr (8, [], {?sql}, {})"
    by code_simp
  have sub: "{?sql} \<subseteq> {?sql, ''y''}" by simp
  have r: "reaches FirstFile ?sql ''p'' ?sql False (initialContext [] {?sql} {})"
    by (rule reaches.start)
  from C9_terminates_visited_once [of FirstFile ?sql "''p''" "[]" "{?sql}" "{}" False]
    mem
  have one: "parseSQL FirstFile ?sql ''p'' [] {?sql} {} False = Inr (8, [], {?sql}, {})"
    by simp
  from C9_terminates_visited_once [of FirstFile ?sql "''p''" "[]" "{}" "{}" False 8 "[]" "{?sql}" "{}"]
    run sub
  have two: "parseSQL FirstFile ?sql ''p'' [''x''] {?sql, ''y''} {''a''} True
      = Inr (8, [''x''], {?sql, ''y''}, {''a''})"
    by simp
  from C9_terminates_visited_once [of FirstFile ?sql "''p''" _ _ _ False _ _ _ _ ?sql
      "initialContext [] {?sql} {}"] r
  have three: "parseSQL FirstFile ?sql ''p'' [] {?sql} {} True = Inr (8, [], {?sql}, {})"
    by (simp add: initialContext_def)
  from one run two three show ?thesis by simp
qed

section \<open>The explicit-reference test and backticks\<close>




end
